theory Spec2Isabelle
  imports Main "HOL-Library.Word"
begin

unbundle bit_operations_syntax

section \<open>The saved-game buffer\<close>

text \<open>
  The module \<^verbatim>\<open>moo2.py\<close> edits a saved game held in \<^verbatim>\<open>array.array('B')\<close>, an array of
  unsigned bytes. The exceptions that the modelled code can raise are values of \<open>error\<close>;
  a computation that can raise returns \<open>error + 'a\<close> with \<open>Inl\<close> for the exception.
\<close>

datatype error = ValueError | IndexError | OverflowError | AttributeError

type_synonym byte = "8 word"

text \<open>
  \<^verbatim>\<open>Game\<close>: the byte array \<^verbatim>\<open>data\<close> and the counter \<^verbatim>\<open>maxplanet\<close>. (The attribute
  \<^verbatim>\<open>path\<close> is used by \<^verbatim>\<open>save\<close> only and is left out.)
\<close>

record Game =
  data :: "byte list"
  maxplanet :: int

text \<open>
  Indexing an array with a Python integer: a negative index counts from the end, and an
  index outside the array raises \<^verbatim>\<open>IndexError\<close>.
\<close>

definition array_index :: "byte list \<Rightarrow> int \<Rightarrow> error + nat" where
  "array_index d i =
     (let n = int (length d); j = (if i < 0 then i + n else i)
      in if j < 0 \<or> n \<le> j then Inl IndexError else Inr (nat j))"

text \<open>\<^verbatim>\<open>d[i]\<close> as an expression.\<close>

definition getitem :: "byte list \<Rightarrow> int \<Rightarrow> error + int" where
  "getitem d i =
     (case array_index d i of Inl e \<Rightarrow> Inl e | Inr j \<Rightarrow> Inr (uint (d ! j)))"

text \<open>
  \<^verbatim>\<open>d[i] = v\<close>: the index is checked first, then the value, which must fit an unsigned
  byte (\<^verbatim>\<open>OverflowError\<close> otherwise).
\<close>

definition setitem :: "byte list \<Rightarrow> int \<Rightarrow> int \<Rightarrow> error + byte list" where
  "setitem d i v =
     (case array_index d i of
        Inl e \<Rightarrow> Inl e
      | Inr j \<Rightarrow> if v < 0 \<or> 255 < v then Inl OverflowError else Inr (d[j := word_of_int v]))"

text \<open>
  \<^verbatim>\<open>d[a:b] = xs\<close> for an array \<^verbatim>\<open>xs\<close>: the bounds are clipped to the array, and the
  slice is replaced by \<^verbatim>\<open>xs\<close> whatever its length.
\<close>

definition clip :: "nat \<Rightarrow> int \<Rightarrow> nat" where
  "clip n i = (if i < 0 then nat (max 0 (i + int n)) else min n (nat i))"

definition setslice :: "byte list \<Rightarrow> int \<Rightarrow> int \<Rightarrow> byte list \<Rightarrow> byte list" where
  "setslice d a b xs =
     (let lo = clip (length d) a; hi = max lo (clip (length d) b)
      in take lo d @ xs @ drop hi d)"

text \<open>
  A statement that mutates the game returns the outcome together with the game after it,
  also when it raises: what was written before the exception stays written.
  \<open>store\<close> is \<^verbatim>\<open>self.game.data[i] = v\<close>; \<open>stores\<close> is a run of such assignments whose
  right-hand sides were evaluated beforehand, as in a tuple assignment.
\<close>

definition store :: "Game \<Rightarrow> int \<Rightarrow> int \<Rightarrow> (error + unit) \<times> Game" where
  "store g i v =
     (case setitem (data g) i v of
        Inl e \<Rightarrow> (Inl e, g)
      | Inr d \<Rightarrow> (Inr (), g\<lparr>data := d\<rparr>))"

fun stores :: "Game \<Rightarrow> (int \<times> int) list \<Rightarrow> (error + unit) \<times> Game" where
  "stores g [] = (Inr (), g)"
| "stores g ((i, v) # rest) =
     (case store g i v of
        (Inl e, g') \<Rightarrow> (Inl e, g')
      | (Inr u, g') \<Rightarrow> stores g' rest)"

text \<open>Indexing a Python list (the lookup tables of the class \<^verbatim>\<open>Planet\<close>).\<close>

definition list_getitem :: "'a list \<Rightarrow> int \<Rightarrow> error + 'a" where
  "list_getitem xs i =
     (let n = int (length xs); j = (if i < 0 then i + n else i)
      in if j < 0 \<or> n \<le> j then Inl IndexError else Inr (xs ! nat j))"

text \<open>\<^verbatim>\<open>Game.short_at_offset\<close> and \<^verbatim>\<open>Game.set_short_at_offset\<close>.\<close>

definition short_at_offset :: "Game \<Rightarrow> int \<Rightarrow> error + int" where
  "short_at_offset g ofs =
     (case getitem (data g) ofs of
        Inl e \<Rightarrow> Inl e
      | Inr lo \<Rightarrow>
          (case getitem (data g) (ofs + 1) of
             Inl e \<Rightarrow> Inl e
           | Inr hi \<Rightarrow> Inr (lo + push_bit 8 hi)))"

definition set_short_at_offset :: "Game \<Rightarrow> int \<Rightarrow> int \<Rightarrow> (error + unit) \<times> Game" where
  "set_short_at_offset g ofs v =
     (case store g (ofs + 1) (drop_bit 8 v) of
        (Inl e, g') \<Rightarrow> (Inl e, g')
      | (Inr u, g') \<Rightarrow> store g' ofs (v AND 0xff))"

section \<open>Views\<close>

text \<open>
  A \<^verbatim>\<open>Star\<close> or a \<^verbatim>\<open>Planet\<close> object holds \<^verbatim>\<open>offset\<close>, \<^verbatim>\<open>number\<close> and a reference to
  the game; the game is passed to every operation explicitly.
\<close>

record view =
  offset :: int
  number :: int

definition Star_block_offset :: int where "Star_block_offset = 0x17ad3"
definition Star_max_stars :: int where "Star_max_stars = 72"
definition Star_block_size :: int where "Star_block_size = 0x71"
definition Star_planet_offset :: int where "Star_planet_offset = 0x4a"

definition Planet_block_offset :: int where "Planet_block_offset = 0x162e9"
definition Planet_max_planets :: int where "Planet_max_planets = 360"
definition Planet_block_size :: int where "Planet_block_size = 0x11"
definition Planet_type2desc :: "int \<rightharpoonup> string" where
  "Planet_type2desc = [1 \<mapsto> ''asteroid'', 2 \<mapsto> ''gas giant'', 3 \<mapsto> ''planet'']"
definition Planet_terraform2desc :: "string list" where
  "Planet_terraform2desc = [''toxic'', ''radiated'', ''barren'', ''desert'', ''tundra'',
                            ''ocean'', ''swamp'', ''arid'', ''terran'', ''gaia'']"
definition Planet_terraform2food :: "int list" where
  "Planet_terraform2food = [0, 0, 0, 1, 1, 2, 2, 1, 2, 3]"
definition Planet_size2blockd :: "int list" where
  "Planet_size2blockd = [2, 4, 5, 7, 10]"

text \<open>\<^verbatim>\<open>Star.__init__\<close> and \<^verbatim>\<open>Planet.__init__\<close>.\<close>

definition Star_init :: "int \<Rightarrow> error + view" where
  "Star_init n =
     (if n < 0 \<or> n \<ge> Star_max_stars then Inl ValueError
      else Inr \<lparr>offset = Star_block_offset + n * Star_block_size, number = n\<rparr>)"

definition Planet_init :: "int \<Rightarrow> error + view" where
  "Planet_init n =
     (if n < 0 \<or> n \<ge> Planet_max_planets then Inl ValueError
      else Inr \<lparr>offset = Planet_block_offset + n * Planet_block_size, number = n\<rparr>)"

text \<open>\<^verbatim>\<open>Star.exists\<close>.\<close>

definition Star_getexists :: "Game \<Rightarrow> view \<Rightarrow> error + bool" where
  "Star_getexists g self =
     (case getitem (data g) (offset self) of Inl e \<Rightarrow> Inl e | Inr b \<Rightarrow> Inr (b \<noteq> 0))"

text \<open>\<^verbatim>\<open>Star.planet_at\<close>.\<close>

definition planet_at :: "Game \<Rightarrow> view \<Rightarrow> int \<Rightarrow> error + view option" where
  "planet_at g self pos =
     (if \<not> (0 \<le> pos \<and> pos \<le> 4) then Inl IndexError
      else
        (case short_at_offset g (offset self + Star_planet_offset + 2 * pos) of
           Inl e \<Rightarrow> Inl e
         | Inr planet_num \<Rightarrow>
             if planet_num = 0xffff then Inr None
             else (case Planet_init planet_num of
                     Inl e \<Rightarrow> Inl e
                   | Inr p \<Rightarrow> Inr (Some p))))"

text \<open>\<^verbatim>\<open>xrange(a, b, step)\<close> for a positive step, and \<^verbatim>\<open>xrange(n)\<close>.\<close>

definition xrange3 :: "int \<Rightarrow> int \<Rightarrow> int \<Rightarrow> int list" where
  "xrange3 a b step = map (\<lambda>k. a + step * int k) [0 ..< nat ((b - a + step - 1) div step)]"

definition xrange :: "int \<Rightarrow> int list" where
  "xrange n = xrange3 0 n 1"

text \<open>
  \<^verbatim>\<open>Star.planets\<close>: a generator over the five slots, skipping \<^verbatim>\<open>0xffff\<close>. The list holds
  what the generator yields when it is run to its end, and the first exception otherwise.
\<close>

fun planets_from :: "Game \<Rightarrow> view \<Rightarrow> int list \<Rightarrow> error + view list" where
  "planets_from g self [] = Inr []"
| "planets_from g self (i # rest) =
     (case short_at_offset g (offset self + i) of
        Inl e \<Rightarrow> Inl e
      | Inr planet_num \<Rightarrow>
          if planet_num = 0xffff then planets_from g self rest
          else (case Planet_init planet_num of
                  Inl e \<Rightarrow> Inl e
                | Inr p \<Rightarrow>
                    (case planets_from g self rest of
                       Inl e \<Rightarrow> Inl e
                     | Inr ps \<Rightarrow> Inr (p # ps))))"

definition Star_planets :: "Game \<Rightarrow> view \<Rightarrow> error + view list" where
  "Star_planets g self =
     planets_from g self (xrange3 Star_planet_offset (Star_planet_offset + 10) 2)"

text \<open>
  \<^verbatim>\<open>Game.stars\<close>: a generator over the star numbers that stops at the first star that
  does not exist.
\<close>

fun stars_from :: "Game \<Rightarrow> int list \<Rightarrow> error + view list" where
  "stars_from g [] = Inr []"
| "stars_from g (i # rest) =
     (case Star_init i of
        Inl e \<Rightarrow> Inl e
      | Inr star \<Rightarrow>
          (case Star_getexists g star of
             Inl e \<Rightarrow> Inl e
           | Inr ex \<Rightarrow>
               if \<not> ex then Inr []
               else (case stars_from g rest of
                       Inl e \<Rightarrow> Inl e
                     | Inr ss \<Rightarrow> Inr (star # ss))))"

definition Game_stars :: "Game \<Rightarrow> error + view list" where
  "Game_stars g = stars_from g (xrange Star_max_stars)"

text \<open>
  The generator expression \<^verbatim>\<open>p.number for s in self.stars() for p in s.planets()\<close>
  of \<^verbatim>\<open>Game.__init__\<close>. Both generators are lazy: the planets of one star are read
  before the next star is looked at, so the model interleaves them in that order.
\<close>

fun planet_numbers_from :: "Game \<Rightarrow> int list \<Rightarrow> error + int list" where
  "planet_numbers_from g [] = Inr []"
| "planet_numbers_from g (i # rest) =
     (case Star_init i of
        Inl e \<Rightarrow> Inl e
      | Inr star \<Rightarrow>
          (case Star_getexists g star of
             Inl e \<Rightarrow> Inl e
           | Inr ex \<Rightarrow>
               if \<not> ex then Inr []
               else (case Star_planets g star of
                       Inl e \<Rightarrow> Inl e
                     | Inr ps \<Rightarrow>
                         (case planet_numbers_from g rest of
                            Inl e \<Rightarrow> Inl e
                          | Inr ns \<Rightarrow> Inr (map number ps @ ns)))))"

text \<open>\<^verbatim>\<open>max\<close> of a sequence: \<^verbatim>\<open>ValueError\<close> when it is empty.\<close>

fun py_max :: "int list \<Rightarrow> error + int" where
  "py_max [] = Inl ValueError"
| "py_max (x # xs) = Inr (fold max xs x)"

text \<open>
  \<^verbatim>\<open>Game.__init__\<close>, from the bytes read from the file. The scan runs before
  \<^verbatim>\<open>maxplanet\<close> is assigned and reads \<^verbatim>\<open>data\<close> only; the record passed to it carries 0
  in the field that does not exist yet.
\<close>

definition Game_init :: "byte list \<Rightarrow> error + Game" where
  "Game_init bytes =
     (let g = \<lparr>data = bytes, maxplanet = 0\<rparr>
      in case planet_numbers_from g (xrange Star_max_stars) of
           Inl e \<Rightarrow> Inl e
         | Inr ns \<Rightarrow>
             (case py_max ns of
                Inl e \<Rightarrow> Inl e
              | Inr m \<Rightarrow> Inr (g\<lparr>maxplanet := m\<rparr>)))"

section \<open>Planets\<close>

text \<open>The getters \<^verbatim>\<open>starnum\<close>, \<^verbatim>\<open>star\<close>, \<^verbatim>\<open>position\<close>, \<^verbatim>\<open>type\<close>, \<^verbatim>\<open>terraform\<close>,
  \<^verbatim>\<open>size\<close>, \<^verbatim>\<open>food\<close>, \<^verbatim>\<open>gravity\<close>, \<^verbatim>\<open>richness\<close>, \<^verbatim>\<open>scenery\<close> and \<^verbatim>\<open>colonynum\<close>.\<close>

definition Planet_getstarnum :: "Game \<Rightarrow> view \<Rightarrow> error + int" where
  "Planet_getstarnum g self = getitem (data g) (offset self + 2)"

definition Planet_getstar :: "Game \<Rightarrow> view \<Rightarrow> error + view" where
  "Planet_getstar g self =
     (case Planet_getstarnum g self of Inl e \<Rightarrow> Inl e | Inr n \<Rightarrow> Star_init n)"

definition Planet_getposition :: "Game \<Rightarrow> view \<Rightarrow> error + int" where
  "Planet_getposition g self = getitem (data g) (offset self + 3)"

definition Planet_gettype :: "Game \<Rightarrow> view \<Rightarrow> error + int" where
  "Planet_gettype g self = getitem (data g) (offset self + 4)"

definition Planet_getsize :: "Game \<Rightarrow> view \<Rightarrow> error + int" where
  "Planet_getsize g self = getitem (data g) (offset self + 5)"

definition Planet_getgravity :: "Game \<Rightarrow> view \<Rightarrow> error + int" where
  "Planet_getgravity g self = getitem (data g) (offset self + 6)"

definition Planet_getterraform :: "Game \<Rightarrow> view \<Rightarrow> error + int" where
  "Planet_getterraform g self = getitem (data g) (offset self + 8)"

definition Planet_getscenery :: "Game \<Rightarrow> view \<Rightarrow> error + int" where
  "Planet_getscenery g self = getitem (data g) (offset self + 0x9)"

definition Planet_getrichness :: "Game \<Rightarrow> view \<Rightarrow> error + int" where
  "Planet_getrichness g self = getitem (data g) (offset self + 0xa)"

definition Planet_getfood :: "Game \<Rightarrow> view \<Rightarrow> error + int" where
  "Planet_getfood g self = getitem (data g) (offset self + 11)"

definition Planet_getcolonynum :: "Game \<Rightarrow> view \<Rightarrow> error + int option" where
  "Planet_getcolonynum g self =
     (case short_at_offset g (offset self) of
        Inl e \<Rightarrow> Inl e
      | Inr colony_index \<Rightarrow> Inr (if colony_index = 0xffff then None else Some colony_index))"

text \<open>
  \<^verbatim>\<open>Planet._setposition\<close>. The first half exchanges the position bytes of the two
  planets (or writes the one byte when the target slot is empty), the second half
  exchanges the two entries of the star's slot table. In each tuple assignment the
  right-hand side is read in full before the first write.
\<close>

definition swap_position_bytes :: "Game \<Rightarrow> view \<Rightarrow> view option \<Rightarrow> int \<Rightarrow> (error + unit) \<times> Game" where
  "swap_position_bytes g self other pos =
     (case other of
        Some oth \<Rightarrow>
          (case Planet_getposition g self of
             Inl e \<Rightarrow> (Inl e, g)
           | Inr self_pos \<Rightarrow>
               (case Planet_getposition g oth of
                  Inl e \<Rightarrow> (Inl e, g)
                | Inr other_pos \<Rightarrow>
                    stores g [(offset oth + 3, self_pos), (offset self + 3, other_pos)]))
      | None \<Rightarrow> store g (offset self + 3) pos)"

definition swap_star_slots :: "Game \<Rightarrow> view \<Rightarrow> int \<Rightarrow> int \<Rightarrow> (error + unit) \<times> Game" where
  "swap_star_slots g self pos oldpos =
     (case Planet_getstar g self of
        Inl e \<Rightarrow> (Inl e, g)
      | Inr star \<Rightarrow>
          (let aoffset = offset star + Star_planet_offset + 2 * pos;
               boffset = offset star + Star_planet_offset + 2 * oldpos;
               d = data g
           in case getitem d boffset of
                Inl e \<Rightarrow> (Inl e, g)
              | Inr b0 \<Rightarrow>
             (case getitem d (boffset + 1) of
                Inl e \<Rightarrow> (Inl e, g)
              | Inr b1 \<Rightarrow>
             (case getitem d aoffset of
                Inl e \<Rightarrow> (Inl e, g)
              | Inr a0 \<Rightarrow>
             (case getitem d (aoffset + 1) of
                Inl e \<Rightarrow> (Inl e, g)
              | Inr a1 \<Rightarrow>
                  stores g [(aoffset, b0), (aoffset + 1, b1),
                            (boffset, a0), (boffset + 1, a1)])))))"

definition Planet_setposition :: "Game \<Rightarrow> view \<Rightarrow> int \<Rightarrow> (error + unit) \<times> Game" where
  "Planet_setposition g self pos =
     (case Planet_getstar g self of
        Inl e \<Rightarrow> (Inl e, g)
      | Inr star \<Rightarrow>
          (case planet_at g star pos of
             Inl e \<Rightarrow> (Inl e, g)
           | Inr other \<Rightarrow>
               (case Planet_getposition g self of
                  Inl e \<Rightarrow> (Inl e, g)
                | Inr oldpos \<Rightarrow>
                    if pos = oldpos then (Inr (), g)
                    else (case swap_position_bytes g self other pos of
                            (Inl e, g1) \<Rightarrow> (Inl e, g1)
                          | (Inr u, g1) \<Rightarrow> swap_star_slots g1 self pos oldpos))))"

text \<open>
  \<^verbatim>\<open>Planet._settype\<close>, and the attribute \<^verbatim>\<open>type\<close> of the class. A
  \<^verbatim>\<open>property(fget, fset, ...)\<close> is a getter and an optional setter; assigning to an
  attribute whose property has no setter raises \<^verbatim>\<open>AttributeError\<close>. The class body
  binds the name \<^verbatim>\<open>type\<close> twice, first to \<^verbatim>\<open>property(_gettype, _settype, ...)\<close> and,
  after \<^verbatim>\<open>type_str\<close>, to \<^verbatim>\<open>property(_gettype, None, ...)\<close>; the class keeps the
  binding made last.
\<close>

definition Planet_settype :: "Game \<Rightarrow> view \<Rightarrow> int \<Rightarrow> (error + unit) \<times> Game" where
  "Planet_settype g self v =
     (if Planet_type2desc v = None then (Inl ValueError, g)
      else store g (offset self + 4) v)"

record property =
  fget :: "Game \<Rightarrow> view \<Rightarrow> error + int"
  fset :: "(Game \<Rightarrow> view \<Rightarrow> int \<Rightarrow> (error + unit) \<times> Game) option"

definition Planet_type_bindings :: "property list" where
  "Planet_type_bindings =
     [\<lparr>fget = Planet_gettype, fset = Some Planet_settype\<rparr>,
      \<lparr>fget = Planet_gettype, fset = None\<rparr>]"

definition Planet_type :: property where
  "Planet_type = last Planet_type_bindings"

definition property_set :: "property \<Rightarrow> Game \<Rightarrow> view \<Rightarrow> int \<Rightarrow> (error + unit) \<times> Game" where
  "property_set p g self v =
     (case fset p of None \<Rightarrow> (Inl AttributeError, g) | Some f \<Rightarrow> f g self v)"

text \<open>The assignment \<^verbatim>\<open>planet.type = v\<close>.\<close>

definition Planet_assign_type :: "Game \<Rightarrow> view \<Rightarrow> int \<Rightarrow> (error + unit) \<times> Game" where
  "Planet_assign_type g self v = property_set Planet_type g self v"

text \<open>\<^verbatim>\<open>Planet._setsize\<close>.\<close>

definition Planet_setsize :: "Game \<Rightarrow> view \<Rightarrow> int \<Rightarrow> (error + unit) \<times> Game" where
  "Planet_setsize g self v =
     (if v < 0 \<or> v > 4 then (Inl ValueError, g)
      else
        (case Planet_getsize g self of
           Inl e \<Rightarrow> (Inl e, g)
         | Inr oldsize \<Rightarrow>
        (case store g (offset self + 5) v of
           (Inl e, g1) \<Rightarrow> (Inl e, g1)
         | (Inr u, g1) \<Rightarrow>
        (case getitem (data g1) (offset self + 0xd) of
           Inl e \<Rightarrow> (Inl e, g1)
         | Inr blockd \<Rightarrow>
        (case list_getitem Planet_size2blockd oldsize of
           Inl e \<Rightarrow> (Inl e, g1)
         | Inr typical \<Rightarrow>
             if blockd = typical
             then (case list_getitem Planet_size2blockd v of
                     Inl e \<Rightarrow> (Inl e, g1)
                   | Inr t \<Rightarrow> store g1 (offset self + 0xd) t)
             else (Inr (), g1))))))"

text \<open>\<^verbatim>\<open>Planet._setfood\<close> and \<^verbatim>\<open>Planet._setterraform\<close>.\<close>

definition Planet_setfood :: "Game \<Rightarrow> view \<Rightarrow> int \<Rightarrow> (error + unit) \<times> Game" where
  "Planet_setfood g self v =
     (if v < 0 \<or> v > 255 then (Inl ValueError, g)
      else store g (offset self + 11) v)"

definition Planet_setterraform :: "Game \<Rightarrow> view \<Rightarrow> int \<Rightarrow> (error + unit) \<times> Game" where
  "Planet_setterraform g self v =
     (if \<not> (0 \<le> v \<and> v < int (length Planet_terraform2desc)) then (Inl ValueError, g)
      else
        (case Planet_getfood g self of
           Inl e \<Rightarrow> (Inl e, g)
         | Inr food \<Rightarrow>
        (case list_getitem Planet_terraform2food v of
           Inl e \<Rightarrow> (Inl e, g)
         | Inr new_food \<Rightarrow>
        (case Planet_getterraform g self of
           Inl e \<Rightarrow> (Inl e, g)
         | Inr ter \<Rightarrow>
        (case list_getitem Planet_terraform2food ter of
           Inl e \<Rightarrow> (Inl e, g)
         | Inr old_food \<Rightarrow>
        (case Planet_setfood g self (food + (new_food - old_food)) of
           (Inl e, g1) \<Rightarrow> (Inl e, g1)
         | (Inr u, g1) \<Rightarrow> store g1 (offset self + 8) v))))))"

section \<open>Creating a planet\<close>

text \<open>A run of item assignments on a local array: the first exception ends it.\<close>

fun setitems :: "byte list \<Rightarrow> (int \<times> int) list \<Rightarrow> error + byte list" where
  "setitems d [] = Inr d"
| "setitems d ((i, v) # rest) =
     (case setitem d i v of Inl e \<Rightarrow> Inl e | Inr d' \<Rightarrow> setitems d' rest)"

text \<open>
  \<^verbatim>\<open>Star.make_planet\<close>. The standard library call
  \<^verbatim>\<open>random.Random(seed).randrange(3)\<close> is not code of this module: it is the parameter
  \<open>randrange3\<close>, a function of the seed. \<open>new_planet_data\<close> is the part of the method
  that fills the local array \<^verbatim>\<open>newdata\<close>.
\<close>

definition new_planet_data :: "(int \<Rightarrow> int) \<Rightarrow> view \<Rightarrow> int \<Rightarrow> int \<Rightarrow> error + byte list" where
  "new_planet_data randrange3 self pos btype =
     (case setitems (replicate (nat Planet_block_size) 0)
             [(0, 0xff), (1, 0xff),
              (2, number self), (3, pos), (4, btype),
              (5, 3), (6, 1), (8, 2),
              (9, randrange3 (pos + btype * 5 + number self * 15))] of
        Inl e \<Rightarrow> Inl e
      | Inr nd1 \<Rightarrow>
     (case getitem nd1 5 of
        Inl e \<Rightarrow> Inl e
      | Inr sz \<Rightarrow>
     (case list_getitem Planet_size2blockd sz of
        Inl e \<Rightarrow> Inl e
      | Inr blockd \<Rightarrow> setitems nd1 [(0xa, 2), (0xd, blockd)])))"

definition make_planet ::
    "(int \<Rightarrow> int) \<Rightarrow> Game \<Rightarrow> view \<Rightarrow> int \<Rightarrow> int \<Rightarrow> (error + view) \<times> Game" where
  "make_planet randrange3 g self pos btype =
     (case planet_at g self pos of
        Inl e \<Rightarrow> (Inl e, g)
      | Inr (Some p) \<Rightarrow> (Inl ValueError, g)
      | Inr None \<Rightarrow>
          if \<not> (1 \<le> btype \<and> btype \<le> 3) then (Inl ValueError, g)
          else
            (let g1 = g\<lparr>maxplanet := maxplanet g + 1\<rparr>
             in case Planet_init (maxplanet g1) of
                  Inl e \<Rightarrow> (Inl e, g1)
                | Inr newp \<Rightarrow>
               (case new_planet_data randrange3 self pos btype of
                  Inl e \<Rightarrow> (Inl e, g1)
                | Inr newdata \<Rightarrow>
                    (let g2 = g1\<lparr>data := setslice (data g1) (offset newp)
                                             (offset newp + Planet_block_size) newdata\<rparr>
                     in case set_short_at_offset g2
                               (offset self + Star_planet_offset + 2 * pos) (number newp) of
                          (Inl e, g3) \<Rightarrow> (Inl e, g3)
                        | (Inr u, g3) \<Rightarrow> (Inr newp, g3)))))"

section \<open>Existing planets, consistent games and runs of calls\<close>

text \<open>
  The entry of star \<open>s\<close>'s slot table at position \<open>k\<close>, read as \<^verbatim>\<open>planet_at\<close> reads it.
\<close>

definition slot_entry :: "Game \<Rightarrow> int \<Rightarrow> int \<Rightarrow> error + int" where
  "slot_entry g s k =
     (case Star_init s of
        Inl e \<Rightarrow> Inl e
      | Inr star \<Rightarrow> short_at_offset g (offset star + Star_planet_offset + 2 * k))"

text \<open>
  A planet exists when the slot table of some star refers to it. (Colony records, the
  other source of references to planets, are not touched by the modelled operations.)
\<close>

definition existing :: "Game \<Rightarrow> int \<Rightarrow> bool" where
  "existing g n \<longleftrightarrow>
     n \<noteq> 0xffff \<and> (\<exists>s \<in> {0..71}. \<exists>k \<in> {0..4}. slot_entry g s k = Inr n)"

text \<open>The buffer holds the whole block of star records (the planet records lie before it).\<close>

definition loaded :: "Game \<Rightarrow> bool" where
  "loaded g \<longleftrightarrow> Star_block_offset + Star_max_stars * Star_block_size \<le> int (length (data g))"

text \<open>
  A consistent game: the buffer is loaded, and every slot-table entry other than
  \<^verbatim>\<open>0xffff\<close> names a planet record that names this star and this position back, and
  whose index the counter \<^verbatim>\<open>maxplanet\<close> has reached.
\<close>

definition refers_back :: "Game \<Rightarrow> int \<Rightarrow> int \<Rightarrow> int \<Rightarrow> bool" where
  "refers_back g s k v \<longleftrightarrow>
     v \<le> maxplanet g \<and>
     (case Planet_init v of
        Inl e \<Rightarrow> False
      | Inr p \<Rightarrow> Planet_getstarnum g p = Inr s \<and> Planet_getposition g p = Inr k)"

definition consistent :: "Game \<Rightarrow> bool" where
  "consistent g \<longleftrightarrow>
     loaded g \<and>
     (\<forall>s \<in> {0..71}. \<forall>k \<in> {0..4}.
        case slot_entry g s k of
          Inl e \<Rightarrow> False
        | Inr v \<Rightarrow> v \<noteq> 0xffff \<longrightarrow> refers_back g s k v)"

text \<open>
  What the claim about positions says of planet \<open>n\<close>: the slot table of its star holds
  \<open>n\<close> at the planet's stored position and at no other position.
\<close>

definition position_agrees :: "Game \<Rightarrow> int \<Rightarrow> bool" where
  "position_agrees g n \<longleftrightarrow>
     (case Planet_init n of
        Inl e \<Rightarrow> False
      | Inr p \<Rightarrow>
          (case Planet_getstarnum g p of
             Inl e \<Rightarrow> False
           | Inr s \<Rightarrow>
               (case Planet_getposition g p of
                  Inl e \<Rightarrow> False
                | Inr k \<Rightarrow>
                    slot_entry g s k = Inr n \<and>
                    (\<forall>q \<in> {0..4}. q \<noteq> k \<longrightarrow> slot_entry g s q \<noteq> Inr n))))"

text \<open>
  Calls of a client: \<^verbatim>\<open>Planet(game, n).position = pos\<close> and
  \<^verbatim>\<open>Star(game, s).make_planet(pos, btype)\<close>. \<open>exec\<close> gives the game after the call,
  whether it returned or raised.
\<close>

datatype call = SetPosition int int | MakePlanet int int int

fun exec :: "(int \<Rightarrow> int) \<Rightarrow> Game \<Rightarrow> call \<Rightarrow> Game" where
  "exec rr g (SetPosition n pos) =
     (case Planet_init n of
        Inl e \<Rightarrow> g
      | Inr p \<Rightarrow> snd (Planet_setposition g p pos))"
| "exec rr g (MakePlanet s pos btype) =
     (case Star_init s of
        Inl e \<Rightarrow> g
      | Inr star \<Rightarrow> snd (make_planet rr g star pos btype))"

fun run :: "(int \<Rightarrow> int) \<Rightarrow> Game \<Rightarrow> call list \<Rightarrow> Game" where
  "run rr g [] = g"
| "run rr g (c # cs) = run rr (exec rr g c) cs"

text \<open>
  A run is on existing planets when every position setter in it is called on a planet
  that exists at the time of the call.
\<close>

fun on_existing :: "(int \<Rightarrow> int) \<Rightarrow> Game \<Rightarrow> call list \<Rightarrow> bool" where
  "on_existing rr g [] = True"
| "on_existing rr g (SetPosition n pos # cs) =
     (existing g n \<and> on_existing rr (exec rr g (SetPosition n pos)) cs)"
| "on_existing rr g (MakePlanet s pos btype # cs) =
     on_existing rr (exec rr g (MakePlanet s pos btype)) cs"

text \<open>The planet indices that the slot table of one star refers to.\<close>

definition referenced_by :: "Game \<Rightarrow> view \<Rightarrow> int set" where
  "referenced_by g star =
     {v. v \<noteq> 0xffff \<and>
         (\<exists>k \<in> {0..4}. short_at_offset g (offset star + Star_planet_offset + 2 * k) = Inr v)}"

section \<open>Reading and writing inside the buffer\<close>

text \<open>
  The byte at a non-negative offset, and the buffer with one byte replaced: what
  \<open>getitem\<close> and \<open>store\<close> compute when the offset lies inside the buffer.
\<close>

definition byte_at :: "Game \<Rightarrow> int \<Rightarrow> int" where
  "byte_at g i = uint (data g ! nat i)"

definition poke :: "Game \<Rightarrow> int \<Rightarrow> int \<Rightarrow> Game" where
  "poke g i v = g\<lparr>data := (data g)[nat i := word_of_int v]\<rparr>"

definition inside :: "Game \<Rightarrow> int \<Rightarrow> bool" where
  "inside g i \<longleftrightarrow> 0 \<le> i \<and> i < int (length (data g))"

section \<open>Closed forms used in the proofs\<close>

text \<open>
  The offset of a slot-table entry and of a planet record, the record that
  \<^verbatim>\<open>make_planet\<close> writes, the buffer with a record replaced, and the game that a
  successful \<^verbatim>\<open>make_planet\<close> leaves behind. The lemmas below show that the modelled
  code computes exactly these.
\<close>

definition slot_ofs :: "int \<Rightarrow> int \<Rightarrow> int" where
  "slot_ofs s k = Star_block_offset + s * Star_block_size + Star_planet_offset + 2 * k"

definition planet_ofs :: "int \<Rightarrow> int" where
  "planet_ofs n = Planet_block_offset + n * Planet_block_size"

definition default_record :: "int \<Rightarrow> int \<Rightarrow> int \<Rightarrow> int \<Rightarrow> byte list" where
  "default_record s pos btype scenery =
     map word_of_int [0xff, 0xff, s, pos, btype, 3, 1, 0, 2, scenery, 2, 0, 0, 7, 0, 0, 0]"

definition write_record :: "Game \<Rightarrow> int \<Rightarrow> byte list \<Rightarrow> Game" where
  "write_record g ofs rec = g\<lparr>data := setslice (data g) ofs (ofs + Planet_block_size) rec\<rparr>"

definition made :: "(int \<Rightarrow> int) \<Rightarrow> Game \<Rightarrow> int \<Rightarrow> int \<Rightarrow> int \<Rightarrow> Game" where
  "made rr g s pos btype =
     (let n = maxplanet g + 1
      in poke (poke (write_record (g\<lparr>maxplanet := n\<rparr>) (planet_ofs n)
                       (default_record s pos btype (rr (pos + btype * 5 + s * 15))))
                    (slot_ofs s pos + 1) (n div 256))
              (slot_ofs s pos) (n mod 256))"

text \<open>
  A run of writes inside the buffer, and the condition under which \<open>stores\<close> performs
  it: every offset lies inside the buffer and every value is a byte.
\<close>

fun pokes :: "Game \<Rightarrow> (int \<times> int) list \<Rightarrow> Game" where
  "pokes g [] = g"
| "pokes g ((i, v) # ws) = pokes (poke g i v) ws"

definition writable :: "Game \<Rightarrow> (int \<times> int) list \<Rightarrow> bool" where
  "writable g ws \<longleftrightarrow> (\<forall>(i, v) \<in> set ws. inside g i \<and> 0 \<le> v \<and> v \<le> 255)"

text \<open>
  A slot-table entry, the star byte and the position byte of a planet record, read from
  a loaded buffer; and the game that the position setter leaves behind when it moves
  planet \<open>a\<close> to the position \<open>q\<close>: the writes of \<^verbatim>\<open>_setposition\<close> in their order.
\<close>

definition slotv :: "Game \<Rightarrow> int \<Rightarrow> int \<Rightarrow> int" where
  "slotv g s k = byte_at g (slot_ofs s k) + 256 * byte_at g (slot_ofs s k + 1)"

definition starb :: "Game \<Rightarrow> int \<Rightarrow> int" where
  "starb g n = byte_at g (planet_ofs n + 2)"

definition posb :: "Game \<Rightarrow> int \<Rightarrow> int" where
  "posb g n = byte_at g (planet_ofs n + 3)"

definition moved_writes :: "Game \<Rightarrow> int \<Rightarrow> int \<Rightarrow> (int \<times> int) list" where
  "moved_writes g a q =
     (let s = starb g a; p = posb g a; v = slotv g s q;
          sa = slot_ofs s q; sb = slot_ofs s p
      in (if v = 0xffff then [(planet_ofs a + 3, q)]
          else [(planet_ofs v + 3, p), (planet_ofs a + 3, posb g v)]) @
         [(sa, byte_at g sb), (sa + 1, byte_at g (sb + 1)),
          (sb, byte_at g sa), (sb + 1, byte_at g (sa + 1))])"

definition moved :: "Game \<Rightarrow> int \<Rightarrow> int \<Rightarrow> Game" where
  "moved g a q = pokes g (moved_writes g a q)"

section \<open>Concrete games\<close>

text \<open>
  A buffer long enough for every record the module addresses, all bytes \<^verbatim>\<open>0xff\<close>: every
  star exists and every slot of every star is empty.
\<close>

definition blank_save :: "byte list" where
  "blank_save = replicate 139095 0xFF"

definition star0 :: view where
  "star0 = \<lparr>offset = 0x17ad3, number = 0\<rparr>"

text \<open>Star 0's slot 0 holds 3, respectively 360.\<close>

definition game_slot3 :: Game where
  "game_slot3 = \<lparr>data = blank_save[97053 := 0x03, 97054 := 0x00], maxplanet = 3\<rparr>"

definition game_slot360 :: Game where
  "game_slot360 = \<lparr>data = blank_save[97053 := 0x68, 97054 := 0x01], maxplanet = 0\<rparr>"

text \<open>
  Planet 3, and games in which its size byte is 3 with the byte at \<^verbatim>\<open>0xd\<close> equal to 7,
  respectively its terraform byte is 2 with food 0.
\<close>

definition planet3 :: view where
  "planet3 = \<lparr>offset = 0x162e9 + 3 * 0x11, number = 3\<rparr>"

definition game_sized :: Game where
  "game_sized = \<lparr>data = blank_save[90913 := 3, 90921 := 7], maxplanet = 3\<rparr>"

definition game_barren :: Game where
  "game_barren = \<lparr>data = blank_save[90916 := 2, 90919 := 0], maxplanet = 3\<rparr>"

text \<open>
  A generator that always draws 0, the blank buffer with the counter at 3, and planet 4.
\<close>

definition zero_rng :: "int \<Rightarrow> int" where
  "zero_rng seed = 0"

definition game_blank :: Game where
  "game_blank = \<lparr>data = blank_save, maxplanet = 3\<rparr>"

definition planet4 :: view where
  "planet4 = \<lparr>offset = 0x162e9 + 4 * 0x11, number = 4\<rparr>"

text \<open>
  Star 0 with planet 3 at position 0 and planet 4 at position 2. And a game with planet 4
  at position 0 of star 0, in which the record of planet 7, that no slot refers to,
  carries star 0 and position 0.
\<close>

definition game_two :: Game where
  "game_two = \<lparr>data = blank_save[97053 := 3, 97054 := 0, 97057 := 4, 97058 := 0,
                                   90910 := 0, 90911 := 0, 90927 := 0, 90928 := 2],
               maxplanet = 4\<rparr>"

definition game_stray :: Game where
  "game_stray = \<lparr>data = blank_save[97053 := 4, 97054 := 0, 90927 := 0, 90928 := 0,
                                     90978 := 0, 90979 := 0],
                 maxplanet = 4\<rparr>"

definition planet7 :: view where
  "planet7 = \<lparr>offset = 0x162e9 + 7 * 0x11, number = 7\<rparr>"

text \<open>
  A save in which star 0 has planet 3 in slot 0, star 1 does not exist (its first byte is
  0) and star 2, which exists, has planet 7 in slot 0; and the game loaded from it.
\<close>

definition bytes_gap :: "byte list" where
  "bytes_gap = blank_save[97053 := 3, 97054 := 0, 97092 := 0, 97279 := 7, 97280 := 0]"

definition game_gap :: Game where
  "game_gap = \<lparr>data = bytes_gap, maxplanet = 3\<rparr>"

definition star2 :: view where
  "star2 = \<lparr>offset = 0x17ad3 + 2 * 0x71, number = 2\<rparr>"

text \<open>
  A save with a single star whose slot 0 refers to planet 359, the last planet index; the
  game loaded from it; and planet 359.
\<close>

definition bytes_full :: "byte list" where
  "bytes_full = blank_save[97053 := 0x67, 97054 := 0x01, 97092 := 0]"

definition game_full :: Game where
  "game_full = \<lparr>data = bytes_full, maxplanet = 359\<rparr>"

definition planet359 :: view where
  "planet359 = \<lparr>offset = 0x162e9 + 359 * 0x11, number = 359\<rparr>"

section \<open>Properties of the buffer primitives\<close>

lemma getitem_inside: "inside g i \<Longrightarrow> getitem (data g) i = Inr (byte_at g i)"
  by (simp add: inside_def getitem_def array_index_def byte_at_def)

lemma getitem_Inr_iff:
  "0 \<le> i \<Longrightarrow> getitem (data g) i = Inr v \<longleftrightarrow> inside g i \<and> v = byte_at g i"
  by (auto simp add: inside_def getitem_def array_index_def byte_at_def Let_def)

lemma store_inside:
  "inside g i \<Longrightarrow> 0 \<le> v \<Longrightarrow> v \<le> 255 \<Longrightarrow> store g i v = (Inr (), poke g i v)"
  by (simp add: inside_def store_def setitem_def array_index_def poke_def)

lemma byte_at_range: "0 \<le> byte_at g i \<and> byte_at g i \<le> 255"
proof -
  have "uint (data g ! nat i) < 2 ^ LENGTH(8)" by (rule uint_bounded)
  then show ?thesis by (simp add: byte_at_def)
qed

lemma byte_at_poke:
  "inside g i \<Longrightarrow> 0 \<le> j \<Longrightarrow> 0 \<le> v \<Longrightarrow> v \<le> 255 \<Longrightarrow>
   byte_at (poke g i v) j = (if i = j then v else byte_at g j)"
  by (auto simp add: inside_def byte_at_def poke_def uint_word_of_int take_bit_int_eq_self nat_eq_iff)

lemma inside_poke: "inside (poke g i v) j = inside g j"
  by (simp add: inside_def poke_def)

lemma maxplanet_poke: "maxplanet (poke g i v) = maxplanet g"
  by (simp add: poke_def)

lemma and_ff: "(v::int) AND 0xff = v mod 256"
  using take_bit_eq_mask[of 8 v] by (simp add: mask_eq_exp_minus_1 take_bit_eq_mod)

lemma getitem_nonneg: "getitem d i = Inr v \<Longrightarrow> 0 \<le> v"
  by (auto simp add: getitem_def split: sum.splits)

lemma short_at_offset_nonneg: "short_at_offset g ofs = Inr v \<Longrightarrow> 0 \<le> v"
  by (auto simp add: short_at_offset_def push_bit_eq_mult split: sum.splits dest!: getitem_nonneg)

lemma star0_init: "Star_init 0 = Inr star0"
  by (simp add: Star_init_def star0_def Star_max_stars_def Star_block_offset_def)

section \<open>The sentinel law of \<^verbatim>\<open>planet_at\<close>\<close>

lemma slot3: "short_at_offset game_slot3 (offset star0 + Star_planet_offset + 2 * 0) = Inr 3"
  by (simp add: short_at_offset_def game_slot3_def blank_save_def star0_def
      Star_planet_offset_def getitem_def array_index_def push_bit_eq_mult)

lemma slot360: "short_at_offset game_slot360 (offset star0 + Star_planet_offset + 2 * 0) = Inr 360"
  by (simp add: short_at_offset_def game_slot360_def blank_save_def star0_def
      Star_planet_offset_def getitem_def array_index_def push_bit_eq_mult)

text \<open>
  Claim C4, as amended. For a position in 0..4 whose slot-table entry reads \<open>v\<close>:
  \<^verbatim>\<open>planet_at\<close> returns none when \<open>v\<close> is \<^verbatim>\<open>0xffff\<close>, a planet view of index \<open>v\<close> when
  \<open>v\<close> is below 360, and raises \<^verbatim>\<open>ValueError\<close> for every other \<open>v\<close>, because
  \<^verbatim>\<open>Planet.__init__\<close> rejects an index of 360 or more.
\<close>

theorem planet_at_sentinel:
  assumes "0 \<le> pos" and "pos \<le> 4"
    and "short_at_offset g (offset star + Star_planet_offset + 2 * pos) = Inr v"
  shows "planet_at g star pos =
           (if v = 0xffff then Inr None
            else if v < 360
              then Inr (Some \<lparr>offset = Planet_block_offset + v * Planet_block_size, number = v\<rparr>)
              else Inl ValueError)"
  using assms short_at_offset_nonneg[OF assms(3)]
  by (simp add: planet_at_def Planet_init_def Planet_max_planets_def)

theorem planet_at_sentinel_witness:
  "(0::int) \<le> 0 \<and> (0::int) \<le> 4 \<and>
   short_at_offset game_slot3 (offset star0 + Star_planet_offset + 2 * 0) = Inr 3 \<and>
   planet_at game_slot3 star0 0 =
     Inr (Some \<lparr>offset = Planet_block_offset + 3 * Planet_block_size, number = 3\<rparr>)"
  using planet_at_sentinel[of 0 game_slot3 star0 3] slot3 by simp

text \<open>
  The claim as stated fails where the entry is neither \<^verbatim>\<open>0xffff\<close> nor a valid planet
  index: star 0's slot 0 holds 360, and \<^verbatim>\<open>planet_at\<close> raises instead of returning a
  planet of index 360.
\<close>

theorem planet_at_sentinel_counterexample:
  "Star_init 0 = Inr star0 \<and>
   short_at_offset game_slot360 (offset star0 + Star_planet_offset + 2 * 0) = Inr 360 \<and>
   (360::int) \<noteq> 0xffff \<and>
   planet_at game_slot360 star0 0 = Inl ValueError"
  using slot360 star0_init
  by (simp add: planet_at_def Planet_init_def Planet_max_planets_def)

section \<open>The scalar setters of a planet\<close>

lemma Planet_init_Inr:
  "Planet_init n = Inr self \<longleftrightarrow>
     0 \<le> n \<and> n < 360 \<and> self = \<lparr>offset = 90857 + n * 17, number = n\<rparr>"
  by (auto simp add: Planet_init_def Planet_max_planets_def Planet_block_offset_def
      Planet_block_size_def)

lemma planet3_init: "Planet_init 3 = Inr planet3"
  by (simp add: Planet_init_Inr planet3_def)

lemma getitem_poke:
  "inside g i \<Longrightarrow> 0 \<le> j \<Longrightarrow> 0 \<le> v \<Longrightarrow> v \<le> 255 \<Longrightarrow>
   getitem (data (poke g i v)) j = (if i = j then Inr v else getitem (data g) j)"
  by (auto simp add: getitem_def array_index_def poke_def inside_def uint_word_of_int
      take_bit_int_eq_self nat_eq_iff)

subsection \<open>The type\<close>

text \<open>
  The method \<^verbatim>\<open>_settype\<close> does what a type setter should: it stores a code in
  \<open>{1, 2, 3}\<close> and raises \<^verbatim>\<open>ValueError\<close>, writing nothing, for any other value.
\<close>

lemma Planet_settype_effect:
  assumes "inside g (offset self + 4)"
  shows "Planet_settype g self v =
           (if v \<in> {1, 2, 3} then (Inr (), poke g (offset self + 4) v) else (Inl ValueError, g))"
  using assms by (auto simp add: Planet_settype_def Planet_type2desc_def store_inside)

text \<open>
  But the attribute \<^verbatim>\<open>type\<close> that the class ends up with has no setter, so every
  assignment to it raises \<^verbatim>\<open>AttributeError\<close> and \<^verbatim>\<open>_settype\<close> never runs.
\<close>

lemma Planet_type_no_setter: "fset Planet_type = None"
  by (simp add: Planet_type_def Planet_type_bindings_def)

lemma Planet_assign_type_raises: "Planet_assign_type g self v = (Inl AttributeError, g)"
  by (simp add: Planet_assign_type_def property_set_def Planet_type_no_setter)

text \<open>
  Claim C6 says that assigning a type code in \<open>{1, 2, 3}\<close> stores it in the type byte.
  At planet 3 of a loaded buffer the assignment of the valid code 3 raises
  \<^verbatim>\<open>AttributeError\<close> and leaves the game as it was.
\<close>

theorem Planet_assign_type_valid_code_raises:
  "Planet_init 3 = Inr planet3 \<and>
   Planet_assign_type game_slot3 planet3 3 = (Inl AttributeError, game_slot3)"
  by (simp add: Planet_assign_type_raises planet3_init)

subsection \<open>The size\<close>

lemma size2blockd_get:
  "0 \<le> i \<Longrightarrow> list_getitem Planet_size2blockd i =
     (if i \<le> 4 then Inr (Planet_size2blockd ! nat i) else Inl IndexError)"
  by (simp add: list_getitem_def Planet_size2blockd_def)

lemma small_int_cases: "0 \<le> (i::int) \<Longrightarrow> i \<le> 4 \<Longrightarrow> i = 0 \<or> i = 1 \<or> i = 2 \<or> i = 3 \<or> i = 4"
  by arith

lemma size2blockd_range:
  "0 \<le> i \<Longrightarrow> i \<le> 4 \<Longrightarrow> 0 \<le> Planet_size2blockd ! nat i \<and> Planet_size2blockd ! nat i \<le> 255"
  using small_int_cases[of i] by (auto simp add: Planet_size2blockd_def)

text \<open>
  Claim C9. For a planet view whose size byte reads \<open>oldsize\<close> and whose byte at
  sub-offset \<^verbatim>\<open>0xd\<close> reads \<open>aux\<close>, and a new size \<open>v\<close> in 0..4: after the size setter the
  size byte is \<open>v\<close>; the byte at \<^verbatim>\<open>0xd\<close> is the typical value of \<open>v\<close> if \<open>aux\<close> was the
  typical value of \<open>oldsize\<close>, and is \<open>aux\<close> otherwise; no other byte has changed. (The
  call returns normally exactly when \<open>oldsize\<close> is at most 4: for a larger old size byte
  the table lookup raises after the size byte was written.)
\<close>

theorem Planet_setsize_effect:
  assumes "Planet_init n = Inr self" and "0 \<le> v" and "v \<le> 4"
    and "Planet_getsize g self = Inr oldsize"
    and "getitem (data g) (offset self + 0xd) = Inr aux"
  shows "\<exists>r g'. Planet_setsize g self v = (r, g') \<and>
           Planet_getsize g' self = Inr v \<and>
           getitem (data g') (offset self + 0xd) =
             Inr (if list_getitem Planet_size2blockd oldsize = Inr aux
                  then Planet_size2blockd ! nat v else aux) \<and>
           (r = Inr () \<longleftrightarrow> oldsize \<le> 4) \<and>
           (\<forall>j. 0 \<le> j \<and> j \<noteq> offset self + 5 \<and> j \<noteq> offset self + 0xd \<longrightarrow>
                getitem (data g') j = getitem (data g) j)"
proof -
  have off: "0 \<le> offset self" using assms(1) by (auto simp add: Planet_init_Inr)
  have in5: "inside g (offset self + 5)"
    using assms(4) off by (simp add: Planet_getsize_def getitem_Inr_iff)
  have ind: "inside g (offset self + 0xd)"
    using assms(5) off by (simp add: getitem_Inr_iff)
  have old0: "0 \<le> oldsize"
    using assms(4) by (auto simp add: Planet_getsize_def dest: getitem_nonneg)
  have v255: "v \<le> 255" using assms(3) by simp
  define g1 where "g1 = poke g (offset self + 5) v"
  have st1: "store g (offset self + 5) v = (Inr (), g1)"
    using in5 assms(2) v255 by (simp add: store_inside g1_def)
  have g1_get: "\<And>j. 0 \<le> j \<Longrightarrow>
      getitem (data g1) j = (if offset self + 5 = j then Inr v else getitem (data g) j)"
    unfolding g1_def using in5 assms(2) v255 by (simp add: getitem_poke)
  have g1_aux: "getitem (data g1) (offset self + 0xd) = Inr aux"
    using g1_get[of "offset self + 0xd"] off assms(5) by simp
  have g1_size: "Planet_getsize g1 self = Inr v"
    using g1_get[of "offset self + 5"] off by (simp add: Planet_getsize_def)
  have ind1: "inside g1 (offset self + 0xd)" using ind by (simp add: g1_def inside_poke)
  show ?thesis
  proof (cases "oldsize \<le> 4")
    case False
    then have "Planet_setsize g self v = (Inl IndexError, g1)"
      using assms(2,3,4) st1 g1_aux old0 by (simp add: Planet_setsize_def size2blockd_get)
    moreover have "list_getitem Planet_size2blockd oldsize \<noteq> Inr aux"
      using False old0 by (simp add: size2blockd_get)
    ultimately show ?thesis using g1_size g1_aux g1_get False by simp
  next
    case True
    note le4 = True
    show ?thesis
    proof (cases "aux = Planet_size2blockd ! nat oldsize")
      case False
      then have "Planet_setsize g self v = (Inr (), g1)"
        using assms(2,3,4) st1 g1_aux old0 le4 by (simp add: Planet_setsize_def size2blockd_get)
      moreover have "list_getitem Planet_size2blockd oldsize \<noteq> Inr aux"
        using False old0 le4 by (simp add: size2blockd_get)
      ultimately show ?thesis using g1_size g1_aux g1_get le4 by simp
    next
      case True
      define t where "t = Planet_size2blockd ! nat v"
      define g2 where "g2 = poke g1 (offset self + 0xd) t"
      have t_range: "0 \<le> t \<and> t \<le> 255"
        using size2blockd_range[OF assms(2,3)] by (simp add: t_def)
      have st2: "store g1 (offset self + 0xd) t = (Inr (), g2)"
        using ind1 t_range by (simp add: store_inside g2_def)
      have g2_get: "\<And>j. 0 \<le> j \<Longrightarrow>
          getitem (data g2) j = (if offset self + 0xd = j then Inr t else getitem (data g1) j)"
        unfolding g2_def using ind1 t_range by (simp add: getitem_poke)
      have "Planet_setsize g self v = (Inr (), g2)"
        using assms(2,3,4) st1 st2 g1_aux old0 le4 True
        by (simp add: Planet_setsize_def size2blockd_get t_def)
      moreover have "list_getitem Planet_size2blockd oldsize = Inr aux"
        using True old0 le4 by (simp add: size2blockd_get)
      moreover have "Planet_getsize g2 self = Inr v"
        using g2_get[of "offset self + 5"] g1_size off by (simp add: Planet_getsize_def)
      moreover have "getitem (data g2) (offset self + 0xd) = Inr t"
        using g2_get[of "offset self + 0xd"] off by simp
      moreover have "\<forall>j. 0 \<le> j \<and> j \<noteq> offset self + 5 \<and> j \<noteq> offset self + 0xd \<longrightarrow>
                getitem (data g2) j = getitem (data g) j"
        using g2_get g1_get by auto
      ultimately show ?thesis using le4 by (simp add: t_def)
    qed
  qed
qed

lemma game_sized_reads:
  "Planet_getsize game_sized planet3 = Inr 3"
  "getitem (data game_sized) (offset planet3 + 0xd) = Inr 7"
  by (simp_all add: Planet_getsize_def getitem_def array_index_def game_sized_def
      blank_save_def planet3_def)

theorem Planet_setsize_effect_witness:
  "Planet_init 3 = Inr planet3 \<and> (0::int) \<le> 4 \<and> (4::int) \<le> 4 \<and>
   Planet_getsize game_sized planet3 = Inr 3 \<and>
   getitem (data game_sized) (offset planet3 + 0xd) = Inr 7 \<and>
   (\<exists>r g'. Planet_setsize game_sized planet3 4 = (r, g') \<and>
      Planet_getsize g' planet3 = Inr 4 \<and>
      getitem (data g') (offset planet3 + 0xd) = Inr 10 \<and> r = Inr ())"
proof -
  have typical: "list_getitem Planet_size2blockd 3 = Inr 7" "Planet_size2blockd ! nat 4 = 10"
    by (simp_all add: list_getitem_def Planet_size2blockd_def)
  from Planet_setsize_effect[OF planet3_init _ _ game_sized_reads, of 4]
  show ?thesis using planet3_init game_sized_reads typical by auto
qed

subsection \<open>The terraform code and the food\<close>

lemma terraform2food_get:
  "0 \<le> i \<Longrightarrow> list_getitem Planet_terraform2food i =
     (if i \<le> 9 then Inr (Planet_terraform2food ! nat i) else Inl IndexError)"
  by (simp add: list_getitem_def Planet_terraform2food_def)

lemma Planet_setterraform_eq:
  assumes "Planet_init n = Inr self" and "0 \<le> c" and "c \<le> 9"
    and "Planet_getfood g self = Inr food"
    and "Planet_getterraform g self = Inr ter"
    and "list_getitem Planet_terraform2food ter = Inr old_food"
    and "new_food = food + (Planet_terraform2food ! nat c - old_food)"
  shows "Planet_setterraform g self c =
           (if new_food < 0 \<or> 255 < new_food then (Inl ValueError, g)
            else (Inr (), poke (poke g (offset self + 11) new_food) (offset self + 8) c))"
proof -
  have off: "0 \<le> offset self" using assms(1) by (auto simp add: Planet_init_Inr)
  have in11: "inside g (offset self + 11)"
    using assms(4) off by (simp add: Planet_getfood_def getitem_Inr_iff)
  have in8: "inside g (offset self + 8)"
    using assms(5) off by (simp add: Planet_getterraform_def getitem_Inr_iff)
  have c255: "c \<le> 255" using assms(3) by simp
  have newget: "list_getitem Planet_terraform2food c = Inr (Planet_terraform2food ! nat c)"
    using assms(2,3) by (simp add: terraform2food_get)
  have unfolded: "Planet_setterraform g self c =
      (case Planet_setfood g self new_food of
         (Inl e, g1) \<Rightarrow> (Inl e, g1)
       | (Inr u, g1) \<Rightarrow> store g1 (offset self + 8) c)"
    using assms(2-7) newget
    by (simp add: Planet_setterraform_def Planet_terraform2desc_def)
  show ?thesis
  proof (cases "new_food < 0 \<or> 255 < new_food")
    case True
    then show ?thesis unfolding unfolded by (auto simp add: Planet_setfood_def)
  next
    case False
    then have "Planet_setfood g self new_food = (Inr (), poke g (offset self + 11) new_food)"
      using in11 by (simp add: Planet_setfood_def store_inside)
    moreover have "store (poke g (offset self + 11) new_food) (offset self + 8) c =
        (Inr (), poke (poke g (offset self + 11) new_food) (offset self + 8) c)"
      using in8 assms(2) c255 by (simp add: store_inside inside_poke)
    ultimately show ?thesis unfolding unfolded using False by simp
  qed
qed

text \<open>
  Claim C10. For a planet view whose food byte reads \<open>food\<close> and whose terraform byte
  reads a code \<open>ter\<close> with typical food \<open>old_food\<close>, and a terraform code \<open>c\<close> in 0..9
  with typical food \<open>t\<close>: if \<open>food + (t - old_food)\<close> lies outside 0..255 the terraform
  setter raises \<^verbatim>\<open>ValueError\<close> and the game is unchanged; otherwise it returns, the food
  byte is \<open>food + (t - old_food)\<close> and the terraform byte is \<open>c\<close>.
\<close>

theorem Planet_setterraform_effect:
  assumes "Planet_init n = Inr self" and "0 \<le> c" and "c \<le> 9"
    and "Planet_getfood g self = Inr food"
    and "Planet_getterraform g self = Inr ter"
    and "list_getitem Planet_terraform2food ter = Inr old_food"
  shows "let new_food = food + (Planet_terraform2food ! nat c - old_food);
             r = Planet_setterraform g self c
         in if new_food < 0 \<or> 255 < new_food
            then r = (Inl ValueError, g)
            else fst r = Inr () \<and>
                 Planet_getfood (snd r) self = Inr new_food \<and>
                 Planet_getterraform (snd r) self = Inr c"
proof -
  have off: "0 \<le> offset self" using assms(1) by (auto simp add: Planet_init_Inr)
  have in11: "inside g (offset self + 11)"
    using assms(4) off by (simp add: Planet_getfood_def getitem_Inr_iff)
  have in8: "inside g (offset self + 8)"
    using assms(5) off by (simp add: Planet_getterraform_def getitem_Inr_iff)
  have c255: "c \<le> 255" using assms(3) by simp
  show ?thesis
    unfolding Let_def Planet_setterraform_eq[OF assms refl]
    using in11 in8 off assms(2) c255
    by (auto simp add: Planet_getfood_def Planet_getterraform_def getitem_poke inside_poke)
qed

lemma game_barren_reads:
  "Planet_getfood game_barren planet3 = Inr 0"
  "Planet_getterraform game_barren planet3 = Inr 2"
  by (simp_all add: Planet_getfood_def Planet_getterraform_def getitem_def array_index_def
      game_barren_def blank_save_def planet3_def)

theorem Planet_setterraform_effect_witness:
  "Planet_init 3 = Inr planet3 \<and> (0::int) \<le> 9 \<and> (9::int) \<le> 9 \<and>
   Planet_getfood game_barren planet3 = Inr 0 \<and>
   Planet_getterraform game_barren planet3 = Inr 2 \<and>
   list_getitem Planet_terraform2food 2 = Inr 0 \<and>
   fst (Planet_setterraform game_barren planet3 9) = Inr () \<and>
   Planet_getfood (snd (Planet_setterraform game_barren planet3 9)) planet3 = Inr 3 \<and>
   Planet_getterraform (snd (Planet_setterraform game_barren planet3 9)) planet3 = Inr 9"
proof -
  have typical: "list_getitem Planet_terraform2food 2 = Inr 0" "Planet_terraform2food ! nat 9 = 3"
    by (simp_all add: list_getitem_def Planet_terraform2food_def)
  from Planet_setterraform_effect[OF planet3_init _ _ game_barren_reads typical(1), of 9]
  show ?thesis using planet3_init game_barren_reads typical by (simp add: Let_def)
qed

text \<open>
  When the terraform byte holds no code of the table (a value above 9), there is no
  typical food to subtract: the setter raises \<^verbatim>\<open>IndexError\<close> and writes nothing.
\<close>

lemma Planet_setterraform_unknown_code:
  assumes "0 \<le> c" and "c \<le> 9"
    and "Planet_getfood g self = Inr food"
    and "Planet_getterraform g self = Inr ter" and "9 < ter"
  shows "Planet_setterraform g self c = (Inl IndexError, g)"
  using assms
  by (simp add: Planet_setterraform_def Planet_terraform2desc_def terraform2food_get)

section \<open>Creating a planet: what \<^verbatim>\<open>make_planet\<close> computes\<close>

lemma replicate17: "replicate (nat Planet_block_size) (0::byte) = [0,0,0,0,0,0,0,0,0,0,0,0,0,0,0,0,0]"
  by (simp add: Planet_block_size_def numeral_eq_Suc)

lemma new_planet_data_eq:
  "new_planet_data rr self pos btype =
     (if 0 \<le> number self \<and> number self \<le> 255 \<and> 0 \<le> pos \<and> pos \<le> 255 \<and>
         0 \<le> btype \<and> btype \<le> 255 \<and>
         0 \<le> rr (pos + btype * 5 + number self * 15) \<and>
         rr (pos + btype * 5 + number self * 15) \<le> 255
      then Inr (default_record (number self) pos btype (rr (pos + btype * 5 + number self * 15)))
      else Inl OverflowError)"
  by (simp add: new_planet_data_def replicate17 setitem_def array_index_def getitem_def
      list_getitem_def Planet_size2blockd_def default_record_def)

lemma Star_init_Inr:
  "Star_init s = Inr self \<longleftrightarrow>
     0 \<le> s \<and> s < 72 \<and> self = \<lparr>offset = 96979 + s * 113, number = s\<rparr>"
  by (auto simp add: Star_init_def Star_max_stars_def Star_block_offset_def
      Star_block_size_def)

lemma setslice_inside:
  assumes "0 \<le> a" and "a + 17 \<le> int (length d)" and "length xs = 17"
  shows "setslice d a (a + 17) xs = take (nat a) d @ xs @ drop (nat a + 17) d"
proof -
  have "nat a \<le> length d" "nat (a + 17) = nat a + 17" "nat a + 17 \<le> length d"
    using assms by auto
  then show ?thesis using assms by (simp add: setslice_def clip_def Let_def min_def max_def)
qed

lemma length_write_record:
  assumes "0 \<le> a" and "a + 17 \<le> int (length (data g))" and "length xs = 17"
  shows "length (data (write_record g a xs)) = length (data g)"
  using assms by (simp add: write_record_def Planet_block_size_def setslice_inside)

lemma inside_write_record:
  assumes "0 \<le> a" and "a + 17 \<le> int (length (data g))" and "length xs = 17"
  shows "inside (write_record g a xs) j = inside g j"
  using length_write_record[OF assms] by (simp add: inside_def)

lemma byte_at_write_record:
  assumes "0 \<le> a" and "a + 17 \<le> int (length (data g))" and "length xs = 17" and "0 \<le> j"
  shows "byte_at (write_record g a xs) j =
           (if a \<le> j \<and> j < a + 17 then uint (xs ! nat (j - a)) else byte_at g j)"
proof -
  have d: "data (write_record g a xs) = take (nat a) (data g) @ xs @ drop (nat a + 17) (data g)"
    using assms by (simp add: write_record_def Planet_block_size_def setslice_inside)
  have la: "length (take (nat a) (data g)) = nat a" using assms by simp
  show ?thesis
  proof (cases "j < a")
    case True
    then show ?thesis using assms la by (simp add: byte_at_def d nth_append)
  next
    case False
    note ge = False
    show ?thesis
    proof (cases "j < a + 17")
      case True
      then have "nat j - nat a < 17" "nat j - nat a = nat (j - a)" using ge assms by auto
      then show ?thesis using True ge assms la by (simp add: byte_at_def d nth_append)
    next
      case False
      then have "nat j - nat a - 17 + (nat a + 17) = nat j" using assms by auto
      moreover have "\<not> nat j - nat a < 17" using False assms by auto
      moreover have "nat a + 17 \<le> length (data g)" using assms by auto
      ultimately show ?thesis using False ge assms la
        by (simp add: byte_at_def d nth_append)
    qed
  qed
qed

lemma maxplanet_write_record: "maxplanet (write_record g a xs) = maxplanet g"
  by (simp add: write_record_def)

lemma short_at_offset_Inr_iff:
  "0 \<le> ofs \<Longrightarrow> short_at_offset g ofs = Inr v \<longleftrightarrow>
     inside g ofs \<and> inside g (ofs + 1) \<and> v = byte_at g ofs + 256 * byte_at g (ofs + 1)"
  by (auto simp add: short_at_offset_def getitem_Inr_iff getitem_inside push_bit_eq_mult
      split: sum.splits)

lemma short_at_offset_inside:
  "inside g ofs \<Longrightarrow> inside g (ofs + 1) \<Longrightarrow>
     short_at_offset g ofs = Inr (byte_at g ofs + 256 * byte_at g (ofs + 1))"
  by (simp add: short_at_offset_def getitem_inside push_bit_eq_mult)

lemma set_short_inside:
  assumes "inside g ofs" and "inside g (ofs + 1)" and "0 \<le> v" and "v < 65536"
  shows "set_short_at_offset g ofs v =
           (Inr (), poke (poke g (ofs + 1) (v div 256)) ofs (v mod 256))"
proof -
  have "0 \<le> v div 256" "v div 256 \<le> 255" using assms by auto
  then show ?thesis using assms
    by (simp add: set_short_at_offset_def store_inside inside_poke drop_bit_eq_div and_ff)
qed

lemma make_planet_eq:
  assumes "Star_init s = Inr self" and "0 \<le> pos" and "pos \<le> 4"
    and "short_at_offset g (offset self + Star_planet_offset + 2 * pos) = Inr 0xffff"
    and "1 \<le> btype" and "btype \<le> 3"
    and "n = maxplanet g + 1" and "sc = rr (pos + btype * 5 + s * 15)"
    and "ofs = offset self + Star_planet_offset + 2 * pos"
  shows "make_planet rr g self pos btype =
     (if n < 0 \<or> 360 \<le> n then (Inl ValueError, g\<lparr>maxplanet := n\<rparr>)
      else if sc < 0 \<or> 255 < sc then (Inl OverflowError, g\<lparr>maxplanet := n\<rparr>)
      else (Inr \<lparr>offset = 90857 + n * 17, number = n\<rparr>,
            poke (poke (write_record (g\<lparr>maxplanet := n\<rparr>) (90857 + n * 17)
                          (default_record s pos btype sc))
                       (ofs + 1) (n div 256))
                 ofs (n mod 256)))"
proof -
  have self: "self = \<lparr>offset = 96979 + s * 113, number = s\<rparr>" and s: "0 \<le> s" "s < 72"
    using assms(1) by (auto simp add: Star_init_Inr)
  have ofs0: "0 \<le> ofs" using assms(2,9) s self by (simp add: Star_planet_offset_def)
  have ins: "inside g ofs" "inside g (ofs + 1)"
    using assms(4) ofs0 unfolding assms(9)[symmetric] by (simp_all add: short_at_offset_Inr_iff)
  have pa: "planet_at g self pos = Inr None"
    using assms(2,3,4) by (simp add: planet_at_def)
  show ?thesis
  proof (cases "n < 0 \<or> 360 \<le> n")
    case True
    then show ?thesis using pa assms(5,6,7)
      by (auto simp add: make_planet_def Let_def Planet_init_def Planet_max_planets_def)
  next
    case False
    then have pi: "Planet_init (maxplanet g + 1) = Inr \<lparr>offset = 90857 + n * 17, number = n\<rparr>"
      using assms(7) by (simp add: Planet_init_Inr)
    have npd: "new_planet_data rr self pos btype =
        (if sc < 0 \<or> 255 < sc then Inl OverflowError else Inr (default_record s pos btype sc))"
      using s assms(2,3,5,6,8) self by (simp add: new_planet_data_eq)
    show ?thesis
    proof (cases "sc < 0 \<or> 255 < sc")
      case True
      then show ?thesis using pa assms(5,6,7) False pi npd
        by (simp add: make_planet_def Let_def)
    next
      case False
      note sc_ok = False
      define g2 where "g2 = write_record (g\<lparr>maxplanet := n\<rparr>) (90857 + n * 17)
                          (default_record s pos btype sc)"
      have len: "96979 \<le> int (length (data g))"
        using ins(1) assms(2,9) s self by (simp add: inside_def Star_planet_offset_def)
      have fits: "0 \<le> 90857 + n * 17" "90857 + n * 17 + 17 \<le> int (length (data (g\<lparr>maxplanet := n\<rparr>)))"
        using \<open>\<not> (n < 0 \<or> 360 \<le> n)\<close> len by auto
      have lrec: "length (default_record s pos btype sc) = 17" by (simp add: default_record_def)
      have "\<And>j. inside g2 j = inside (g\<lparr>maxplanet := n\<rparr>) j"
        unfolding g2_def by (rule inside_write_record[OF fits lrec])
      moreover have "\<And>j. inside (g\<lparr>maxplanet := n\<rparr>) j = inside g j"
        by (simp add: inside_def)
      ultimately have ins2: "inside g2 ofs" "inside g2 (ofs + 1)"
        using ins by simp_all
      have n16: "0 \<le> n" "n < 65536" using \<open>\<not> (n < 0 \<or> 360 \<le> n)\<close> by auto
      have "set_short_at_offset g2 ofs n =
          (Inr (), poke (poke g2 (ofs + 1) (n div 256)) ofs (n mod 256))"
        using set_short_inside[OF ins2 n16] .
      moreover have "g\<lparr>maxplanet := maxplanet g + 1,
             data := setslice (data g) (90857 + n * 17) (90857 + n * 17 + Planet_block_size)
                       (default_record s pos btype sc)\<rparr> = g2"
        using assms(7) by (simp add: g2_def write_record_def)
      ultimately show ?thesis
        using pa assms(5,6,7) \<open>\<not> (n < 0 \<or> 360 \<le> n)\<close> pi npd sc_ok assms(9)
        by (simp add: make_planet_def Let_def g2_def)
    qed
  qed
qed

lemma slot_ofs_eq: "slot_ofs s k = 97053 + s * 113 + 2 * k"
  by (simp add: slot_ofs_def Star_block_offset_def Star_block_size_def Star_planet_offset_def)

lemma planet_ofs_eq: "planet_ofs n = 90857 + n * 17"
  by (simp add: planet_ofs_def Planet_block_offset_def Planet_block_size_def)

lemma make_planet_Inr_D:
  assumes "make_planet rr g self pos btype = (Inr newp, g')"
  shows "0 \<le> pos \<and> pos \<le> 4 \<and>
         short_at_offset g (offset self + Star_planet_offset + 2 * pos) = Inr 0xffff \<and>
         1 \<le> btype \<and> btype \<le> 3"
  using assms
  by (auto simp add: make_planet_def planet_at_def
      split: if_splits sum.splits option.splits)

text \<open>When \<^verbatim>\<open>make_planet\<close> returns: its preconditions and its result in closed form.\<close>

lemma make_planet_Inr:
  assumes "Star_init s = Inr self"
    and "make_planet rr g self pos btype = (Inr newp, g')"
  shows "0 \<le> s \<and> s < 72 \<and> 0 \<le> pos \<and> pos \<le> 4 \<and> 1 \<le> btype \<and> btype \<le> 3 \<and>
         0 \<le> maxplanet g + 1 \<and> maxplanet g + 1 < 360 \<and>
         0 \<le> rr (pos + btype * 5 + s * 15) \<and> rr (pos + btype * 5 + s * 15) \<le> 255 \<and>
         inside g (slot_ofs s pos) \<and> inside g (slot_ofs s pos + 1) \<and>
         byte_at g (slot_ofs s pos) + 256 * byte_at g (slot_ofs s pos + 1) = 0xffff \<and>
         newp = \<lparr>offset = planet_ofs (maxplanet g + 1), number = maxplanet g + 1\<rparr> \<and>
         g' = made rr g s pos btype"
proof -
  note D = make_planet_Inr_D[OF assms(2)]
  have self: "self = \<lparr>offset = 96979 + s * 113, number = s\<rparr>" and s: "0 \<le> s" "s < 72"
    using assms(1) by (auto simp add: Star_init_Inr)
  have ofs: "offset self + Star_planet_offset + 2 * pos = slot_ofs s pos"
    using self by (simp add: slot_ofs_eq Star_planet_offset_def)
  have ofs0: "0 \<le> slot_ofs s pos" using s D by (simp add: slot_ofs_eq)
  have rd: "inside g (slot_ofs s pos) \<and> inside g (slot_ofs s pos + 1) \<and>
         byte_at g (slot_ofs s pos) + 256 * byte_at g (slot_ofs s pos + 1) = 0xffff"
    using D ofs0 by (auto simp add: ofs short_at_offset_Inr_iff)
  from make_planet_eq[OF assms(1) _ _ _ _ _ refl refl refl, of pos g btype rr] D assms(2)
  have "(Inr newp, g') =
     (if maxplanet g + 1 < 0 \<or> 360 \<le> maxplanet g + 1
      then (Inl ValueError, g\<lparr>maxplanet := maxplanet g + 1\<rparr>)
      else if rr (pos + btype * 5 + s * 15) < 0 \<or> 255 < rr (pos + btype * 5 + s * 15)
        then (Inl OverflowError, g\<lparr>maxplanet := maxplanet g + 1\<rparr>)
        else (Inr \<lparr>offset = 90857 + (maxplanet g + 1) * 17, number = maxplanet g + 1\<rparr>,
            poke (poke (write_record (g\<lparr>maxplanet := maxplanet g + 1\<rparr>)
                          (90857 + (maxplanet g + 1) * 17)
                          (default_record s pos btype (rr (pos + btype * 5 + s * 15))))
                       (slot_ofs s pos + 1) ((maxplanet g + 1) div 256))
                 (slot_ofs s pos) ((maxplanet g + 1) mod 256)))"
    by (simp add: ofs)
  then have "0 \<le> maxplanet g + 1 \<and> maxplanet g + 1 < 360 \<and>
         0 \<le> rr (pos + btype * 5 + s * 15) \<and> rr (pos + btype * 5 + s * 15) \<le> 255 \<and>
         newp = \<lparr>offset = planet_ofs (maxplanet g + 1), number = maxplanet g + 1\<rparr> \<and>
         g' = made rr g s pos btype"
    by (auto simp add: made_def planet_ofs_eq Let_def split: if_splits)
  then show ?thesis using s D rd by simp
qed

lemma made_props:
  assumes "0 \<le> s" and "s < 72" and "0 \<le> pos" and "pos \<le> 4"
    and "n = maxplanet g + 1" and "0 \<le> n" and "n < 360"
    and "inside g (slot_ofs s pos + 1)"
  shows "maxplanet (made rr g s pos btype) = n"
    and "\<And>j. inside (made rr g s pos btype) j = inside g j"
    and "\<And>j. 0 \<le> j \<Longrightarrow> byte_at (made rr g s pos btype) j =
           (if j = slot_ofs s pos then n mod 256
            else if j = slot_ofs s pos + 1 then n div 256
            else if planet_ofs n \<le> j \<and> j < planet_ofs n + 17
              then uint (default_record s pos btype (rr (pos + btype * 5 + s * 15))
                           ! nat (j - planet_ofs n))
              else byte_at g j)"
proof -
  define rec where "rec = default_record s pos btype (rr (pos + btype * 5 + s * 15))"
  define g1 where "g1 = g\<lparr>maxplanet := n\<rparr>"
  define g2 where "g2 = write_record g1 (planet_ofs n) rec"
  have made: "made rr g s pos btype =
      poke (poke g2 (slot_ofs s pos + 1) (n div 256)) (slot_ofs s pos) (n mod 256)"
    using assms(5) by (simp add: made_def Let_def g2_def g1_def rec_def)
  have so: "0 \<le> slot_ofs s pos" "97053 \<le> slot_ofs s pos"
    using assms(1-4) by (simp_all add: slot_ofs_eq)
  have fits: "0 \<le> planet_ofs n" "planet_ofs n + 17 \<le> int (length (data g1))"
    using assms(6,7,8) so by (simp_all add: planet_ofs_eq inside_def g1_def)
  have lrec: "length rec = 17" by (simp add: rec_def default_record_def)
  have in2: "\<And>j. inside g2 j = inside g j"
    unfolding g2_def using inside_write_record[OF fits lrec] by (simp add: inside_def g1_def)
  have b2: "\<And>j. 0 \<le> j \<Longrightarrow> byte_at g2 j =
      (if planet_ofs n \<le> j \<and> j < planet_ofs n + 17 then uint (rec ! nat (j - planet_ofs n))
       else byte_at g j)"
    unfolding g2_def using byte_at_write_record[OF fits lrec]
    by (simp add: g1_def byte_at_def)
  have ins: "inside g2 (slot_ofs s pos + 1)" "inside g2 (slot_ofs s pos)"
    using assms(8) so by (simp_all add: in2) (simp add: inside_def)
  have hi: "0 \<le> n div 256" "n div 256 \<le> 255" and lo: "0 \<le> n mod 256" "n mod 256 \<le> 255"
    using assms(6,7) by auto
  show "maxplanet (made rr g s pos btype) = n"
    by (simp add: made maxplanet_poke g2_def maxplanet_write_record g1_def)
  show "\<And>j. inside (made rr g s pos btype) j = inside g j"
    by (simp add: made inside_poke in2)
  fix j :: int assume j: "0 \<le> j"
  have ins': "inside (poke g2 (slot_ofs s pos + 1) (n div 256)) (slot_ofs s pos)"
    using ins by (simp add: inside_poke)
  have disj: "planet_ofs n + 17 \<le> slot_ofs s pos"
    using assms(7) so by (simp add: planet_ofs_eq)
  show "byte_at (made rr g s pos btype) j =
           (if j = slot_ofs s pos then n mod 256
            else if j = slot_ofs s pos + 1 then n div 256
            else if planet_ofs n \<le> j \<and> j < planet_ofs n + 17
              then uint (default_record s pos btype (rr (pos + btype * 5 + s * 15))
                           ! nat (j - planet_ofs n))
              else byte_at g j)"
    unfolding made rec_def[symmetric]
    using byte_at_poke[OF ins' j lo] byte_at_poke[OF ins(1) j hi] b2[OF j] disj
    by auto
qed

lemma uint_byte: "0 \<le> x \<Longrightarrow> x \<le> 255 \<Longrightarrow> uint (word_of_int x :: byte) = x"
  by (simp add: uint_word_of_int take_bit_int_eq_self)

lemma made_record_byte:
  assumes "0 \<le> s" and "s < 72" and "0 \<le> pos" and "pos \<le> 4"
    and "n = maxplanet g + 1" and "0 \<le> n" and "n < 360"
    and "inside g (slot_ofs s pos + 1)"
    and "0 \<le> k" and "k < 17"
  shows "getitem (data (made rr g s pos btype)) (planet_ofs n + k) =
           Inr (uint (default_record s pos btype (rr (pos + btype * 5 + s * 15)) ! nat k))"
proof -
  note P = made_props[OF assms(1-8)]
  have so: "97053 \<le> slot_ofs s pos" using assms(1-4) by (simp add: slot_ofs_eq)
  have j: "0 \<le> planet_ofs n + k" "planet_ofs n + k < slot_ofs s pos"
    using assms(6,7,9,10) so by (simp_all add: planet_ofs_eq)
  have "inside g (planet_ofs n + k)"
    using assms(8) j by (simp add: inside_def)
  then have "inside (made rr g s pos btype) (planet_ofs n + k)" by (simp add: P(2))
  then show ?thesis using P(3)[OF j(1), of rr btype] j(2) assms(9,10)
    by (simp add: getitem_inside)
qed

lemma made_slot:
  assumes "0 \<le> s" and "s < 72" and "0 \<le> pos" and "pos \<le> 4"
    and "n = maxplanet g + 1" and "0 \<le> n" and "n < 360"
    and "inside g (slot_ofs s pos)" and "inside g (slot_ofs s pos + 1)"
  shows "short_at_offset (made rr g s pos btype) (slot_ofs s pos) = Inr n"
proof -
  note P = made_props[OF assms(1-7,9)]
  have so: "0 \<le> slot_ofs s pos" using assms(1-4) by (simp add: slot_ofs_eq)
  have "byte_at (made rr g s pos btype) (slot_ofs s pos) = n mod 256"
    using P(3)[of "slot_ofs s pos" rr btype] so by simp
  moreover have "byte_at (made rr g s pos btype) (slot_ofs s pos + 1) = n div 256"
    using P(3)[of "slot_ofs s pos + 1" rr btype] so by simp
  ultimately show ?thesis using assms(8,9)
    by (simp add: short_at_offset_inside P(2))
qed

lemma make_planet_record:
  assumes "Star_init s = Inr self"
    and "make_planet rr g self pos btype = (Inr newp, g')"
  shows "maxplanet g' = maxplanet g + 1"
    and "number newp = maxplanet g + 1"
    and "Planet_init (maxplanet g + 1) = Inr newp"
    and "short_at_offset g' (offset self + Star_planet_offset + 2 * pos) = Inr (number newp)"
    and "short_at_offset g' (offset newp) = Inr 0xffff"
    and "Planet_getstarnum g' newp = Inr s"
    and "Planet_getposition g' newp = Inr pos"
    and "Planet_gettype g' newp = Inr btype"
    and "Planet_getsize g' newp = Inr 3"
    and "Planet_getgravity g' newp = Inr 1"
    and "getitem (data g') (offset newp + 7) = Inr 0"
    and "Planet_getterraform g' newp = Inr 2"
    and "Planet_getscenery g' newp = Inr (rr (pos + btype * 5 + s * 15))"
    and "Planet_getrichness g' newp = Inr 2"
    and "Planet_getfood g' newp = Inr 0"
    and "getitem (data g') (offset newp + 0xc) = Inr 0"
    and "getitem (data g') (offset newp + 0xd) = Inr 7"
    and "getitem (data g') (offset newp + 0xe) = Inr 0"
    and "getitem (data g') (offset newp + 0xf) = Inr 0"
    and "getitem (data g') (offset newp + 0x10) = Inr 0"
proof -
  note I = make_planet_Inr[OF assms]
  define n where "n = maxplanet g + 1"
  have c: "0 \<le> s" "s < 72" "0 \<le> pos" "pos \<le> 4" "n = maxplanet g + 1" "0 \<le> n" "n < 360"
      "inside g (slot_ofs s pos + 1)"
    using I by (simp_all add: n_def)
  have newp: "newp = \<lparr>offset = planet_ofs n, number = n\<rparr>" and g': "g' = made rr g s pos btype"
    using I by (simp_all add: n_def)
  have self: "offset self + Star_planet_offset + 2 * pos = slot_ofs s pos"
    using assms(1) by (auto simp add: Star_init_Inr slot_ofs_eq Star_planet_offset_def)
  note B = made_record_byte[OF c, of _ rr btype, folded g']
  have bt: "0 \<le> btype" "btype \<le> 255" "pos \<le> 255" "s \<le> 255" using I by auto
  have sc: "0 \<le> rr (pos + btype * 5 + s * 15)" "rr (pos + btype * 5 + s * 15) \<le> 255"
    using I by auto
  show "maxplanet g' = maxplanet g + 1" using made_props(1)[OF c] by (simp add: g' n_def)
  show "number newp = maxplanet g + 1" by (simp add: newp n_def)
  show "Planet_init (maxplanet g + 1) = Inr newp"
    using c by (simp add: Planet_init_Inr newp planet_ofs_eq)
  show "short_at_offset g' (offset self + Star_planet_offset + 2 * pos) = Inr (number newp)"
    using made_slot[OF c(1-7), of rr btype] I by (simp add: self g' newp)
  have b0: "getitem (data g') (planet_ofs n) = Inr 255" using B[of 0] by (simp add: default_record_def)
  have b1: "getitem (data g') (planet_ofs n + 1) = Inr 255" using B[of 1] by (simp add: default_record_def)
  show "short_at_offset g' (offset newp) = Inr 0xffff"
    using b0 b1 by (simp add: short_at_offset_def newp push_bit_eq_mult)
  show "Planet_getstarnum g' newp = Inr s"
    using B[of 2] c bt by (simp add: Planet_getstarnum_def newp default_record_def uint_byte)
  show "Planet_getposition g' newp = Inr pos"
    using B[of 3] c bt by (simp add: Planet_getposition_def newp default_record_def uint_byte)
  show "Planet_gettype g' newp = Inr btype"
    using B[of 4] c bt by (simp add: Planet_gettype_def newp default_record_def uint_byte)
  show "Planet_getsize g' newp = Inr 3"
    using B[of 5] by (simp add: Planet_getsize_def newp default_record_def)
  show "Planet_getgravity g' newp = Inr 1"
    using B[of 6] by (simp add: Planet_getgravity_def newp default_record_def)
  show "getitem (data g') (offset newp + 7) = Inr 0"
    using B[of 7] by (simp add: newp default_record_def)
  show "Planet_getterraform g' newp = Inr 2"
    using B[of 8] by (simp add: Planet_getterraform_def newp default_record_def)
  show "Planet_getscenery g' newp = Inr (rr (pos + btype * 5 + s * 15))"
    using B[of 9] sc by (simp add: Planet_getscenery_def newp default_record_def uint_byte)
  show "Planet_getrichness g' newp = Inr 2"
    using B[of 10] by (simp add: Planet_getrichness_def newp default_record_def)
  show "Planet_getfood g' newp = Inr 0"
    using B[of 11] by (simp add: Planet_getfood_def newp default_record_def)
  show "getitem (data g') (offset newp + 0xc) = Inr 0"
    using B[of 12] by (simp add: newp default_record_def)
  show "getitem (data g') (offset newp + 0xd) = Inr 7"
    using B[of 13] by (simp add: newp default_record_def)
  show "getitem (data g') (offset newp + 0xe) = Inr 0"
    using B[of 14] by (simp add: newp default_record_def)
  show "getitem (data g') (offset newp + 0xf) = Inr 0"
    using B[of 15] by (simp add: newp default_record_def)
  show "getitem (data g') (offset newp + 0x10) = Inr 0"
    using B[of 16] by (simp add: newp default_record_def)
qed

lemma blank_slot:
  "0 \<le> i \<Longrightarrow> i + 1 < 139095 \<Longrightarrow> short_at_offset \<lparr>data = blank_save, maxplanet = m\<rparr> i = Inr 0xffff"
  by (simp add: short_at_offset_def getitem_def array_index_def blank_save_def push_bit_eq_mult)

lemma make_planet_blank:
  "make_planet zero_rng game_blank star0 2 1 = (Inr planet4, made zero_rng game_blank 0 2 1)"
proof -
  have "short_at_offset game_blank (offset star0 + Star_planet_offset + 2 * 2) = Inr 0xffff"
    unfolding game_blank_def by (rule blank_slot) (simp_all add: star0_def Star_planet_offset_def)
  from make_planet_eq[OF star0_init _ _ this _ _ refl refl refl, of 1 zero_rng]
  show ?thesis
    by (simp add: game_blank_def zero_rng_def planet4_def made_def planet_ofs_eq slot_ofs_eq
        star0_def Star_planet_offset_def)
qed

section \<open>Allocation\<close>

text \<open>
  Claim C2. A call of \<^verbatim>\<open>make_planet\<close> on a star view that returns has raised the counter
  \<^verbatim>\<open>maxplanet\<close> by exactly 1, the new value is the index of the planet returned, and
  in the game it leaves \<^verbatim>\<open>planet_at\<close> at the requested position returns that planet,
  whose type byte is the requested body type.
\<close>

theorem make_planet_allocates:
  assumes "Star_init s = Inr self"
    and "make_planet rr g self pos btype = (Inr newp, g')"
  shows "maxplanet g' = maxplanet g + 1 \<and> number newp = maxplanet g' \<and>
         planet_at g' self pos = Inr (Some newp) \<and>
         Planet_gettype g' newp = Inr btype"
proof -
  note R = make_planet_record[OF assms]
  note I = make_planet_Inr[OF assms]
  have "planet_at g' self pos = Inr (Some newp)"
    using I R(2,3,4) by (simp add: planet_at_def)
  then show ?thesis using R(1,2,8) by simp
qed

theorem make_planet_allocates_witness:
  "Star_init 0 = Inr star0 \<and>
   make_planet zero_rng game_blank star0 2 1 = (Inr planet4, made zero_rng game_blank 0 2 1) \<and>
   maxplanet game_blank = 3 \<and>
   maxplanet (made zero_rng game_blank 0 2 1) = 4 \<and> number planet4 = 4 \<and>
   planet_at (made zero_rng game_blank 0 2 1) star0 2 = Inr (Some planet4) \<and>
   Planet_gettype (made zero_rng game_blank 0 2 1) planet4 = Inr 1"
  using make_planet_allocates[OF star0_init make_planet_blank] star0_init make_planet_blank
  by (simp add: game_blank_def planet4_def)

section \<open>The default record\<close>

text \<open>
  Claim C7, as amended. After a call of \<^verbatim>\<open>make_planet\<close> that returns, the new planet
  has no colony, the creating star's index, the position and the body type as given,
  size 3, gravity 1, richness 2, and the scenery that the generator seeded with
  \<open>pos + btype * 5 + star * 15\<close> drew; its terraform byte is the constant 2 (barren),
  and it is the byte at sub-offset \<^verbatim>\<open>0xd\<close>, not the terraform byte, that is looked up
  from the size in the table \<^verbatim>\<open>size2blockd\<close>; all other bytes of the record are 0; the
  star's slot-table entry at the position is the new planet's index.
\<close>

theorem make_planet_default_record:
  assumes "Star_init s = Inr self"
    and "make_planet rr g self pos btype = (Inr newp, g')"
  shows "Planet_getcolonynum g' newp = Inr None \<and>
         Planet_getstarnum g' newp = Inr (number self) \<and>
         Planet_getposition g' newp = Inr pos \<and>
         Planet_gettype g' newp = Inr btype \<and>
         Planet_getsize g' newp = Inr 3 \<and>
         Planet_getgravity g' newp = Inr 1 \<and>
         Planet_getrichness g' newp = Inr 2 \<and>
         Planet_getscenery g' newp = Inr (rr (pos + btype * 5 + number self * 15)) \<and>
         Planet_getterraform g' newp = Inr 2 \<and>
         getitem (data g') (offset newp + 0xd) = list_getitem Planet_size2blockd 3 \<and>
         Planet_getfood g' newp = Inr 0 \<and>
         getitem (data g') (offset newp + 7) = Inr 0 \<and>
         getitem (data g') (offset newp + 0xc) = Inr 0 \<and>
         getitem (data g') (offset newp + 0xe) = Inr 0 \<and>
         getitem (data g') (offset newp + 0xf) = Inr 0 \<and>
         getitem (data g') (offset newp + 0x10) = Inr 0 \<and>
         slot_entry g' (number self) pos = Inr (number newp)"
proof -
  note R = make_planet_record[OF assms]
  have s: "number self = s" using assms(1) by (auto simp add: Star_init_Inr)
  have "Planet_getcolonynum g' newp = Inr None"
    using R(5) by (simp add: Planet_getcolonynum_def)
  moreover have "getitem (data g') (offset newp + 0xd) = list_getitem Planet_size2blockd 3"
    using R(17) by (simp add: list_getitem_def Planet_size2blockd_def)
  moreover have "slot_entry g' (number self) pos = Inr (number newp)"
    using R(4) assms(1) by (simp add: slot_entry_def s)
  ultimately show ?thesis using R s by simp
qed

theorem make_planet_default_record_witness:
  "Star_init 0 = Inr star0 \<and>
   make_planet zero_rng game_blank star0 2 1 = (Inr planet4, made zero_rng game_blank 0 2 1) \<and>
   Planet_getcolonynum (made zero_rng game_blank 0 2 1) planet4 = Inr None \<and>
   Planet_getstarnum (made zero_rng game_blank 0 2 1) planet4 = Inr 0 \<and>
   Planet_getposition (made zero_rng game_blank 0 2 1) planet4 = Inr 2 \<and>
   Planet_gettype (made zero_rng game_blank 0 2 1) planet4 = Inr 1 \<and>
   Planet_getscenery (made zero_rng game_blank 0 2 1) planet4 = Inr 0 \<and>
   Planet_getterraform (made zero_rng game_blank 0 2 1) planet4 = Inr 2 \<and>
   getitem (data (made zero_rng game_blank 0 2 1)) (offset planet4 + 0xd) = Inr 7 \<and>
   slot_entry (made zero_rng game_blank 0 2 1) 0 2 = Inr 4"
  using make_planet_default_record[OF star0_init make_planet_blank] star0_init make_planet_blank
  by (simp add: star0_def planet4_def zero_rng_def list_getitem_def Planet_size2blockd_def)

text \<open>
  The claim as stated says that the terraform byte is derived from the size through the
  lookup table. On the blank buffer, the planet made at star 0 has size 3, the table gives
  7 for size 3, and the terraform byte is 2.
\<close>

theorem make_planet_terraform_counterexample:
  "Star_init 0 = Inr star0 \<and>
   make_planet zero_rng game_blank star0 2 1 = (Inr planet4, made zero_rng game_blank 0 2 1) \<and>
   Planet_getsize (made zero_rng game_blank 0 2 1) planet4 = Inr 3 \<and>
   list_getitem Planet_size2blockd 3 = Inr 7 \<and>
   Planet_getterraform (made zero_rng game_blank 0 2 1) planet4 = Inr 2 \<and>
   Planet_getterraform (made zero_rng game_blank 0 2 1) planet4
     \<noteq> list_getitem Planet_size2blockd 3"
  using make_planet_record(9,12)[OF star0_init make_planet_blank] star0_init make_planet_blank
  by (simp add: list_getitem_def Planet_size2blockd_def)

section \<open>Failure of \<^verbatim>\<open>make_planet\<close>\<close>

text \<open>
  A call on a star view that raises leaves every byte of the buffer as it was. The
  counter is another matter: it is incremented before the new planet view is
  constructed, so a failure after the two explicit checks leaves it raised by 1.
\<close>

lemma planet_at_NoneD:
  "planet_at g self pos = Inr None \<Longrightarrow>
     0 \<le> pos \<and> pos \<le> 4 \<and>
     short_at_offset g (offset self + Star_planet_offset + 2 * pos) = Inr 0xffff"
  by (auto simp add: planet_at_def split: if_splits sum.splits)

lemma make_planet_failure:
  assumes "Star_init s = Inr self"
    and "make_planet rr g self pos btype = (Inl e, g')"
  shows "data g' = data g"
    and "maxplanet g' =
           (if planet_at g self pos = Inr None \<and> 1 \<le> btype \<and> btype \<le> 3
            then maxplanet g + 1 else maxplanet g)"
proof -
  have "data g' = data g \<and> maxplanet g' =
           (if planet_at g self pos = Inr None \<and> 1 \<le> btype \<and> btype \<le> 3
            then maxplanet g + 1 else maxplanet g)"
  proof (cases "planet_at g self pos = Inr None \<and> 1 \<le> btype \<and> btype \<le> 3")
    case False
    then have "make_planet rr g self pos btype = (Inl e, g) \<and> g' = g"
      using assms(2)
      by (auto simp add: make_planet_def split: sum.splits option.splits if_splits)
    then show ?thesis using False by simp
  next
    case True
    note D = planet_at_NoneD[of g self pos]
    from make_planet_eq[OF assms(1) _ _ _ _ _ refl refl refl, of pos g btype rr] True D assms(2)
    have "g' = g\<lparr>maxplanet := maxplanet g + 1\<rparr>"
      by (auto split: if_splits)
    then show ?thesis using True by simp
  qed
  then show "data g' = data g"
    and "maxplanet g' =
           (if planet_at g self pos = Inr None \<and> 1 \<le> btype \<and> btype \<le> 3
            then maxplanet g + 1 else maxplanet g)" by simp_all
qed

section \<open>The position setter and the consistency of positions\<close>

lemma writable_Cons:
  "writable g ((i, v) # ws) \<longleftrightarrow> inside g i \<and> 0 \<le> v \<and> v \<le> 255 \<and> writable g ws"
  by (auto simp add: writable_def)

lemma writable_Nil: "writable g []"
  by (simp add: writable_def)

lemma writable_poke: "writable (poke g i v) ws = writable g ws"
  by (simp add: writable_def inside_poke)

lemma stores_writable: "writable g ws \<Longrightarrow> stores g ws = (Inr (), pokes g ws)"
proof (induction ws arbitrary: g)
  case Nil
  then show ?case by simp
next
  case (Cons w ws)
  obtain i v where w: "w = (i, v)" by (cases w)
  from Cons.prems have h: "inside g i" "0 \<le> v" "v \<le> 255" "writable (poke g i v) ws"
    by (simp_all add: w writable_Cons writable_poke)
  show ?case using Cons.IH[OF h(4)] h(1-3) by (simp add: w store_inside)
qed

lemma inside_pokes: "inside (pokes g ws) j = inside g j"
proof (induction ws arbitrary: g)
  case Nil
  show ?case by simp
next
  case (Cons w ws)
  obtain i v where w: "w = (i, v)" by (cases w)
  show ?case unfolding w pokes.simps Cons.IH by (rule inside_poke)
qed

lemma maxplanet_pokes: "maxplanet (pokes g ws) = maxplanet g"
proof (induction ws arbitrary: g)
  case Nil
  show ?case by simp
next
  case (Cons w ws)
  obtain i v where w: "w = (i, v)" by (cases w)
  show ?case unfolding w pokes.simps Cons.IH by (rule maxplanet_poke)
qed

lemma pokes_append: "pokes g (ws @ ws') = pokes (pokes g ws) ws'"
proof (induction ws arbitrary: g)
  case Nil
  show ?case by simp
next
  case (Cons w ws)
  obtain i v where w: "w = (i, v)" by (cases w)
  show ?case unfolding w by (simp add: Cons.IH)
qed

lemma byte_at_pokes:
  "writable g ws \<Longrightarrow> 0 \<le> j \<Longrightarrow>
     byte_at (pokes g ws) j = (case map_of (rev ws) j of None \<Rightarrow> byte_at g j | Some v \<Rightarrow> v)"
proof (induction ws arbitrary: g)
  case Nil
  then show ?case by simp
next
  case (Cons w ws)
  obtain i v where w: "w = (i, v)" by (cases w)
  from Cons.prems have h: "inside g i" "0 \<le> v" "v \<le> 255" "writable (poke g i v) ws"
    by (simp_all add: w writable_Cons writable_poke)
  have step: "byte_at (pokes g (w # ws)) j =
      (case map_of (rev ws) j of None \<Rightarrow> byte_at (poke g i v) j | Some u \<Rightarrow> u)"
    unfolding w pokes.simps by (rule Cons.IH[OF h(4) Cons.prems(2)])
  have bp: "byte_at (poke g i v) j = (if i = j then v else byte_at g j)"
    by (rule byte_at_poke[OF h(1) Cons.prems(2) h(2,3)])
  show ?case unfolding step bp
    by (cases "map_of (rev ws) j") (simp_all add: w map_add_def)
qed

lemma loaded_inside: "loaded g \<Longrightarrow> 0 \<le> j \<Longrightarrow> j < 105115 \<Longrightarrow> inside g j"
  by (simp add: loaded_def inside_def Star_block_offset_def Star_max_stars_def Star_block_size_def)

lemma slot_inside:
  "loaded g \<Longrightarrow> 0 \<le> s \<Longrightarrow> s < 72 \<Longrightarrow> 0 \<le> k \<Longrightarrow> k \<le> 4 \<Longrightarrow>
     inside g (slot_ofs s k) \<and> inside g (slot_ofs s k + 1)"
  by (auto intro!: loaded_inside simp add: slot_ofs_eq)

lemma planet_inside:
  "loaded g \<Longrightarrow> 0 \<le> n \<Longrightarrow> n < 360 \<Longrightarrow> 0 \<le> c \<Longrightarrow> c < 17 \<Longrightarrow> inside g (planet_ofs n + c)"
  by (auto intro!: loaded_inside simp add: planet_ofs_eq)

lemma slot_entry_loaded:
  "loaded g \<Longrightarrow> 0 \<le> s \<Longrightarrow> s < 72 \<Longrightarrow> 0 \<le> k \<Longrightarrow> k \<le> 4 \<Longrightarrow>
     slot_entry g s k = Inr (slotv g s k)"
  using slot_inside[of g s k]
  by (simp add: slot_entry_def Star_init_def Star_max_stars_def slotv_def slot_ofs_def
      short_at_offset_inside)

lemma slotv_range: "0 \<le> slotv g s k \<and> slotv g s k \<le> 65535"
  using byte_at_range[of g "slot_ofs s k"] byte_at_range[of g "slot_ofs s k + 1"]
  by (simp add: slotv_def)

lemma loaded_pokes: "loaded (pokes g ws) = loaded g"
proof -
  have "\<And>g i v. length (data (poke g i v)) = length (data g)" by (simp add: poke_def)
  then have "length (data (pokes g ws)) = length (data g)"
    by (induction ws arbitrary: g) auto
  then show ?thesis by (simp add: loaded_def)
qed

lemma planet_field_neq: "planet_ofs v + 3 \<noteq> planet_ofs a + 2"
  unfolding planet_ofs_eq by presburger

lemma planet_below_slot:
  "n < 360 \<Longrightarrow> c < 17 \<Longrightarrow> 0 \<le> s \<Longrightarrow> 0 \<le> k \<Longrightarrow> planet_ofs n + c < slot_ofs s k"
  unfolding planet_ofs_eq slot_ofs_eq by linarith

lemma Planet_init_ok:
  "0 \<le> n \<Longrightarrow> n < 360 \<Longrightarrow> Planet_init n = Inr \<lparr>offset = planet_ofs n, number = n\<rparr>"
  by (simp add: Planet_init_Inr planet_ofs_eq)

lemma byte_at_pokes_other:
  "writable g ws \<Longrightarrow> 0 \<le> j \<Longrightarrow> j \<notin> fst ` set ws \<Longrightarrow> byte_at (pokes g ws) j = byte_at g j"
proof -
  assume w: "writable g ws" and j: "0 \<le> j" and n: "j \<notin> fst ` set ws"
  have "map_of (rev ws) j = None" using n by (simp add: map_of_eq_None_iff)
  then show ?thesis using byte_at_pokes[OF w j] by simp
qed

lemma setposition_eq:
  assumes "loaded g" and "0 \<le> a" and "a < 360"
    and "starb g a = s" and "s < 72"
    and "posb g a = p" and "p \<le> 4"
    and "0 \<le> q" and "q \<le> 4" and "q \<noteq> p"
    and "slotv g s q = v" and "v = 0xffff \<or> v < 360"
  shows "Planet_setposition g \<lparr>offset = planet_ofs a, number = a\<rparr> q = (Inr (), moved g a q)"
    and "writable g (moved_writes g a q)"
proof -
  define A where "A = \<lparr>offset = planet_ofs a, number = a\<rparr>"
  define S where "S = \<lparr>offset = 96979 + s * 113, number = s\<rparr>"
  define L1 where "L1 = (if v = 0xffff then [(planet_ofs a + 3, q)]
             else [(planet_ofs v + 3, p), (planet_ofs a + 3, posb g v)])"
  define g1 where "g1 = pokes g L1"
  define sa where "sa = slot_ofs s q"
  define sb where "sb = slot_ofs s p"
  define L2 where "L2 = [(sa, byte_at g sb), (sa + 1, byte_at g (sb + 1)),
             (sb, byte_at g sa), (sb + 1, byte_at g (sa + 1))]"
  have s0: "0 \<le> s" using byte_at_range[of g "planet_ofs a + 2"] assms(4) by (simp add: starb_def)
  have p0: "0 \<le> p" using byte_at_range[of g "planet_ofs a + 3"] assms(6) by (simp add: posb_def)
  have v0: "0 \<le> v" using slotv_range[of g s q] assms(11) by simp
  have pa0: "0 \<le> planet_ofs a" using assms(2) by (simp add: planet_ofs_eq)
  have ina: "\<And>c. 0 \<le> c \<Longrightarrow> c < 17 \<Longrightarrow> inside g (planet_ofs a + c)"
    using planet_inside[OF assms(1,2,3)] by simp
  have insa: "inside g sa" "inside g (sa + 1)"
    using slot_inside[OF assms(1) s0 assms(5,8,9)] by (simp_all add: sa_def)
  have insb: "inside g sb" "inside g (sb + 1)"
    using slot_inside[OF assms(1) s0 assms(5) p0 assms(7)] by (simp_all add: sb_def)
  have sa0: "0 \<le> sa" "0 \<le> sb" using insa insb by (simp_all add: inside_def)
  \<comment> \<open>the reads before the first write\<close>
  have starnum: "Planet_getstarnum g A = Inr s"
    using ina[of 2] assms(4) by (simp add: Planet_getstarnum_def A_def getitem_inside starb_def)
  have star: "Planet_getstar g A = Inr S"
    using starnum s0 assms(5) by (simp add: Planet_getstar_def Star_init_Inr S_def)
  have Sofs: "offset S + Star_planet_offset + 2 * q = sa" "offset S + Star_planet_offset + 2 * p = sb"
    by (simp_all add: S_def sa_def sb_def slot_ofs_eq Star_planet_offset_def)
  have short: "short_at_offset g sa = Inr v"
    using insa assms(11) by (simp add: short_at_offset_inside slotv_def sa_def)
  have pat: "planet_at g S q =
      Inr (if v = 0xffff then None else Some \<lparr>offset = planet_ofs v, number = v\<rparr>)"
    using assms(8,9,12) short v0 by (auto simp add: planet_at_def Sofs Planet_init_ok)
  have pos: "Planet_getposition g A = Inr p"
    using ina[of 3] assms(6) by (simp add: Planet_getposition_def A_def getitem_inside posb_def)
  \<comment> \<open>the position bytes\<close>
  have w1: "writable g L1"
  proof (cases "v = 0xffff")
    case True
    then show ?thesis using ina[of 3] assms(8,9) by (simp add: L1_def writable_Cons writable_Nil)
  next
    case False
    then have "v < 360" using assms(12) by simp
    then have "inside g (planet_ofs v + 3)" using planet_inside[OF assms(1) v0, of 3] by simp
    then show ?thesis using False ina[of 3] p0 assms(7) byte_at_range[of g "planet_ofs v + 3"]
      by (simp add: L1_def writable_Cons writable_Nil posb_def)
  qed
  have swap1: "swap_position_bytes g A
      (if v = 0xffff then None else Some \<lparr>offset = planet_ofs v, number = v\<rparr>) q = (Inr (), g1)"
  proof (cases "v = 0xffff")
    case True
    then show ?thesis using ina[of 3] assms(8,9)
      by (simp add: swap_position_bytes_def A_def store_inside g1_def L1_def)
  next
    case False
    then have "v < 360" using assms(12) by simp
    then have "inside g (planet_ofs v + 3)" using planet_inside[OF assms(1) v0, of 3] by simp
    then have "Planet_getposition g \<lparr>offset = planet_ofs v, number = v\<rparr> = Inr (posb g v)"
      by (simp add: Planet_getposition_def getitem_inside posb_def)
    moreover have "stores g L1 = (Inr (), g1)"
      unfolding g1_def by (rule stores_writable[OF w1])
    ultimately show ?thesis using False pos
      by (simp add: swap_position_bytes_def L1_def A_def)
  qed
  \<comment> \<open>the slot table, read after the position bytes were written\<close>
  have keys: "fst ` set L1 \<subseteq> {planet_ofs a + 3, planet_ofs v + 3}"
    by (auto simp add: L1_def)
  have vlt: "v \<noteq> 0xffff \<Longrightarrow> v < 360" using assms(12) by simp
  have same: "\<And>j. 0 \<le> j \<Longrightarrow> j \<noteq> planet_ofs a + 3 \<Longrightarrow> (v \<noteq> 0xffff \<longrightarrow> j \<noteq> planet_ofs v + 3)
      \<Longrightarrow> byte_at g1 j = byte_at g j"
    unfolding g1_def
    by (rule byte_at_pokes_other[OF w1]) (auto simp add: L1_def)
  have starnum1: "Planet_getstarnum g1 A = Inr s"
  proof -
    have "byte_at g1 (planet_ofs a + 2) = byte_at g (planet_ofs a + 2)"
      using pa0 planet_field_neq[of v a] by (intro same) auto
    moreover have "inside g1 (planet_ofs a + 2)" using ina[of 2] by (simp add: g1_def inside_pokes)
    ultimately show ?thesis using assms(4)
      by (simp add: Planet_getstarnum_def A_def getitem_inside starb_def)
  qed
  have star1: "Planet_getstar g1 A = Inr S"
    using starnum1 s0 assms(5) by (simp add: Planet_getstar_def Star_init_Inr S_def)
  have slot_same: "\<And>k c. 0 \<le> k \<Longrightarrow> 0 \<le> c \<Longrightarrow>
      byte_at g1 (slot_ofs s k + c) = byte_at g (slot_ofs s k + c)"
  proof -
    fix k c :: int assume k: "0 \<le> k" and c: "0 \<le> c"
    have "planet_ofs a + 3 < slot_ofs s k" using planet_below_slot[OF assms(3) _ s0 k, of 3] by simp
    moreover have "v \<noteq> 0xffff \<longrightarrow> planet_ofs v + 3 < slot_ofs s k"
      using planet_below_slot[OF _ _ s0 k, of v 3] vlt by simp
    moreover have "0 \<le> slot_ofs s k" using s0 k by (simp add: slot_ofs_eq)
    ultimately show "byte_at g1 (slot_ofs s k + c) = byte_at g (slot_ofs s k + c)"
      using c by (intro same) auto
  qed
  have reads: "getitem (data g1) sb = Inr (byte_at g sb)"
      "getitem (data g1) (sb + 1) = Inr (byte_at g (sb + 1))"
      "getitem (data g1) sa = Inr (byte_at g sa)"
      "getitem (data g1) (sa + 1) = Inr (byte_at g (sa + 1))"
    using insa insb slot_same[OF p0, of 0] slot_same[OF p0, of 1]
      slot_same[OF assms(8), of 0] slot_same[OF assms(8), of 1]
    by (simp_all add: getitem_inside g1_def[symmetric] inside_pokes sa_def sb_def
        inside_pokes[of g L1, folded g1_def])
  have w2: "writable g1 L2"
    using insa insb byte_at_range[of g]
    by (simp add: L2_def writable_Cons writable_Nil g1_def inside_pokes)
  have swap2: "swap_star_slots g1 A q p = (Inr (), pokes g1 L2)"
    using star1 reads stores_writable[OF w2]
    by (simp add: swap_star_slots_def Sofs Let_def L2_def)
  have "pokes g1 L2 = moved g a q"
    using assms(4,6,11)
    by (simp add: moved_def moved_writes_def Let_def g1_def L1_def L2_def sa_def sb_def
        pokes_append)
  then show "Planet_setposition g \<lparr>offset = planet_ofs a, number = a\<rparr> q = (Inr (), moved g a q)"
    using star pat pos assms(10) swap1 swap2
    by (simp add: Planet_setposition_def A_def[symmetric])
  have "writable g L2" using w2 by (simp add: writable_def g1_def inside_pokes)
  then have "writable g (L1 @ L2)" using w1 by (auto simp add: writable_def)
  then show "writable g (moved_writes g a q)"
    using assms(4,6,11) by (auto simp add: moved_writes_def Let_def L1_def L2_def sa_def sb_def)
qed

lemma slot_ofs_inj:
  "0 \<le> k \<Longrightarrow> k \<le> 4 \<Longrightarrow> 0 \<le> k' \<Longrightarrow> k' \<le> 4 \<Longrightarrow>
     (slot_ofs s k = slot_ofs s' k') = (s = s' \<and> k = k')"
  unfolding slot_ofs_eq by (cases "s = s'"; cases "s < s'") auto

lemma slot_ofs_succ:
  "0 \<le> k \<Longrightarrow> k \<le> 4 \<Longrightarrow> 0 \<le> k' \<Longrightarrow> k' \<le> 4 \<Longrightarrow> slot_ofs s k \<noteq> slot_ofs s' k' + 1"
proof (intro notI)
  assume k: "0 \<le> k" "k \<le> 4" "0 \<le> k'" "k' \<le> 4"
  assume "slot_ofs s k = slot_ofs s' k' + 1"
  then have eq: "s * 113 + 2 * k = s' * 113 + 2 * k' + 1" by (simp add: slot_ofs_eq)
  consider "s = s'" | "s + 1 \<le> s'" | "s' + 1 \<le> s" by linarith
  then show False
  proof cases
    case 1
    then have "2 * k = 2 * k' + 1" using eq by simp
    then show False by presburger
  next
    case 2
    then show False using eq k by linarith
  next
    case 3
    then show False using eq k by linarith
  qed
qed

lemma planet_ofs_inj: "(planet_ofs m + c = planet_ofs a + c) = (m = a)"
  by (simp add: planet_ofs_eq)

text \<open>The bytes of the game after a move, in closed form.\<close>

lemma map_of_moved_writes:
  assumes "starb g a = s" and "posb g a = p" and "slotv g s q = v"
    and "sa = slot_ofs s q" and "sb = slot_ofs s p"
  shows "map_of (rev (moved_writes g a q)) j =
     (if j = sb + 1 then Some (byte_at g (sa + 1))
      else if j = sb then Some (byte_at g sa)
      else if j = sa + 1 then Some (byte_at g (sb + 1))
      else if j = sa then Some (byte_at g sb)
      else if j = planet_ofs a + 3 then Some (if v = 0xffff then q else posb g v)
      else if v \<noteq> 0xffff \<and> j = planet_ofs v + 3 then Some p
      else None)"
proof (cases "v = 0xffff")
  case True
  then have "moved_writes g a q = [(planet_ofs a + 3, q),
         (sa, byte_at g sb), (sa + 1, byte_at g (sb + 1)),
         (sb, byte_at g sa), (sb + 1, byte_at g (sa + 1))]"
    using assms by (simp add: moved_writes_def Let_def)
  then show ?thesis using True by simp
next
  case False
  then have "moved_writes g a q = [(planet_ofs v + 3, p), (planet_ofs a + 3, posb g v),
         (sa, byte_at g sb), (sa + 1, byte_at g (sb + 1)),
         (sb, byte_at g sa), (sb + 1, byte_at g (sa + 1))]"
    using assms by (simp add: moved_writes_def Let_def)
  then show ?thesis using False by simp
qed

lemma byte_at_moved:
  assumes "writable g (moved_writes g a q)" and "0 \<le> j"
    and "starb g a = s" and "posb g a = p" and "slotv g s q = v"
    and "sa = slot_ofs s q" and "sb = slot_ofs s p"
  shows "byte_at (moved g a q) j =
     (if j = sb + 1 then byte_at g (sa + 1)
      else if j = sb then byte_at g sa
      else if j = sa + 1 then byte_at g (sb + 1)
      else if j = sa then byte_at g sb
      else if j = planet_ofs a + 3 then (if v = 0xffff then q else posb g v)
      else if v \<noteq> 0xffff \<and> j = planet_ofs v + 3 then p
      else byte_at g j)"
  unfolding moved_def byte_at_pokes[OF assms(1,2)] map_of_moved_writes[OF assms(3-7)]
  by simp

lemma starb_range: "0 \<le> starb g n \<and> starb g n \<le> 255"
  by (simp add: starb_def byte_at_range)

lemma posb_range: "0 \<le> posb g n \<and> posb g n \<le> 255"
  by (simp add: posb_def byte_at_range)

lemma planet_ofs_inj0: "(planet_ofs m = planet_ofs a) = (m = a)"
  by (simp add: planet_ofs_eq)

lemma moved_frame: "loaded (moved g a q) = loaded g" "maxplanet (moved g a q) = maxplanet g"
  by (simp_all add: moved_def loaded_pokes maxplanet_pokes)

lemma slotv_moved:
  assumes "loaded g" and "0 \<le> a" and "a < 360"
    and "starb g a = s" and "s < 72"
    and "posb g a = p" and "p \<le> 4"
    and "0 \<le> q" and "q \<le> 4" and "q \<noteq> p"
    and "slotv g s q = v" and "v = 0xffff \<or> v < 360"
    and "0 \<le> s'" and "0 \<le> k'" and "k' \<le> 4"
  shows "slotv (moved g a q) s' k' =
           (if s' = s \<and> k' = p then slotv g s q
            else if s' = s \<and> k' = q then slotv g s p
            else slotv g s' k')"
proof -
  note W = setposition_eq(2)[OF assms(1-12)]
  have s0: "0 \<le> s" using starb_range[of g a] assms(4) by simp
  have p0: "0 \<le> p" using posb_range[of g a] assms(6) by simp
  define j where "j = slot_ofs s' k'"
  define sa where "sa = slot_ofs s q"
  define sb where "sb = slot_ofs s p"
  have j0: "0 \<le> j" "0 \<le> j + 1" using assms(13,14) by (simp_all add: j_def slot_ofs_eq)
  have e1: "(j = sb) = (s' = s \<and> k' = p)" "(j = sa) = (s' = s \<and> k' = q)"
    unfolding j_def sa_def sb_def
    using slot_ofs_inj[OF assms(14,15) p0 assms(7)] slot_ofs_inj[OF assms(14,15) assms(8,9)]
    by simp_all
  have e2: "j \<noteq> sb + 1" "j \<noteq> sa + 1" "j + 1 \<noteq> sb" "j + 1 \<noteq> sa"
    unfolding j_def sa_def sb_def
    using slot_ofs_succ[OF assms(14,15) p0 assms(7), of s' s]
      slot_ofs_succ[OF assms(14,15) assms(8,9), of s' s]
      slot_ofs_succ[OF p0 assms(7) assms(14,15), of s s']
      slot_ofs_succ[OF assms(8,9) assms(14,15), of s s']
    by simp_all
  have e3: "j \<noteq> planet_ofs a + 3" "j + 1 \<noteq> planet_ofs a + 3"
    using planet_below_slot[OF assms(3) _ assms(13,14), of 3] by (simp_all add: j_def)
  have e4: "v \<noteq> 0xffff \<Longrightarrow> j \<noteq> planet_ofs v + 3 \<and> j + 1 \<noteq> planet_ofs v + 3"
    using planet_below_slot[OF _ _ assms(13,14), of v 3] assms(12) by (simp add: j_def)
  have b0: "byte_at (moved g a q) j =
      (if s' = s \<and> k' = p then byte_at g sa
       else if s' = s \<and> k' = q then byte_at g sb else byte_at g j)"
    unfolding byte_at_moved[OF W j0(1) assms(4,6,11) sa_def sb_def]
    using e1 e2 e3 e4 by auto
  have b1: "byte_at (moved g a q) (j + 1) =
      (if s' = s \<and> k' = p then byte_at g (sa + 1)
       else if s' = s \<and> k' = q then byte_at g (sb + 1) else byte_at g (j + 1))"
    unfolding byte_at_moved[OF W j0(2) assms(4,6,11) sa_def sb_def]
    using e1 e2 e3 e4 by auto
  show ?thesis
    unfolding slotv_def j_def[symmetric] b0 b1 sa_def[symmetric] sb_def[symmetric]
    by simp
qed

lemma planet_fields_moved:
  assumes "loaded g" and "0 \<le> a" and "a < 360"
    and "starb g a = s" and "s < 72"
    and "posb g a = p" and "p \<le> 4"
    and "0 \<le> q" and "q \<le> 4" and "q \<noteq> p"
    and "slotv g s q = v" and "v = 0xffff \<or> v < 360"
    and "0 \<le> m" and "m < 360"
  shows "starb (moved g a q) m = starb g m"
    and "posb (moved g a q) m =
           (if m = a then (if v = 0xffff then q else posb g v)
            else if v \<noteq> 0xffff \<and> m = v then p
            else posb g m)"
proof -
  note W = setposition_eq(2)[OF assms(1-12)]
  have s0: "0 \<le> s" using starb_range[of g a] assms(4) by simp
  have p0: "0 \<le> p" using posb_range[of g a] assms(6) by simp
  define sa where "sa = slot_ofs s q"
  define sb where "sb = slot_ofs s p"
  have pm0: "0 \<le> planet_ofs m + 2" "0 \<le> planet_ofs m + 3"
    using assms(13) by (simp_all add: planet_ofs_eq)
  have lt: "\<And>c. c < 17 \<Longrightarrow> planet_ofs m + c < sa \<and> planet_ofs m + c < sb"
    unfolding sa_def sb_def
    using planet_below_slot[OF assms(14) _ s0 assms(8)] planet_below_slot[OF assms(14) _ s0 p0]
    by simp
  have n2: "planet_ofs m + 2 \<noteq> planet_ofs a + 3" "planet_ofs m + 2 \<noteq> planet_ofs v + 3"
    using planet_field_neq[of a m] planet_field_neq[of v m] by simp_all
  have "byte_at (moved g a q) (planet_ofs m + 2) = byte_at g (planet_ofs m + 2)"
    unfolding byte_at_moved[OF W pm0(1) assms(4,6,11) sa_def sb_def]
    using lt[of 2] n2 by auto
  then show "starb (moved g a q) m = starb g m" by (simp add: starb_def)
  have "byte_at (moved g a q) (planet_ofs m + 3) =
           (if m = a then (if v = 0xffff then q else posb g v)
            else if v \<noteq> 0xffff \<and> m = v then p
            else byte_at g (planet_ofs m + 3))"
    unfolding byte_at_moved[OF W pm0(2) assms(4,6,11) sa_def sb_def]
    using lt[of 3] by (auto simp add: planet_ofs_inj0)
  then show "posb (moved g a q) m =
           (if m = a then (if v = 0xffff then q else posb g v)
            else if v \<noteq> 0xffff \<and> m = v then p
            else posb g m)" by (simp add: posb_def)
qed

lemma length_poke: "length (data (poke g i v)) = length (data g)"
  by (simp add: poke_def)

lemma loaded_made:
  assumes "loaded g" and "0 \<le> maxplanet g + 1" and "maxplanet g + 1 < 360"
  shows "loaded (made rr g s pos btype)"
proof -
  define n where "n = maxplanet g + 1"
  define rec where "rec = default_record s pos btype (rr (pos + btype * 5 + s * 15))"
  have fits: "0 \<le> planet_ofs n" "planet_ofs n + 17 \<le> int (length (data (g\<lparr>maxplanet := n\<rparr>)))"
    using assms by (simp_all add: n_def planet_ofs_eq loaded_def Star_block_offset_def
        Star_max_stars_def Star_block_size_def)
  have lrec: "length rec = 17" by (simp add: rec_def default_record_def)
  have "length (data (made rr g s pos btype)) = length (data g)"
    using length_write_record[OF fits lrec]
    by (simp add: made_def Let_def length_poke n_def rec_def)
  then show ?thesis using assms(1) by (simp add: loaded_def)
qed

lemma in_record_iff:
  "0 \<le> c \<Longrightarrow> c < 17 \<Longrightarrow>
     (planet_ofs n \<le> planet_ofs m + c \<and> planet_ofs m + c < planet_ofs n + 17) = (m = n)"
  unfolding planet_ofs_eq by (cases "m = n"; cases "m < n") auto

lemma made_fields:
  assumes "loaded g" and "0 \<le> s" and "s < 72" and "0 \<le> pos" and "pos \<le> 4"
    and "n = maxplanet g + 1" and "0 \<le> n" and "n < 360"
  shows "\<And>s' k'. 0 \<le> s' \<Longrightarrow> 0 \<le> k' \<Longrightarrow> k' \<le> 4 \<Longrightarrow>
           slotv (made rr g s pos btype) s' k' =
             (if s' = s \<and> k' = pos then n else slotv g s' k')"
    and "\<And>m. 0 \<le> m \<Longrightarrow> m < 360 \<Longrightarrow>
           starb (made rr g s pos btype) m = (if m = n then s else starb g m)"
    and "\<And>m. 0 \<le> m \<Longrightarrow> m < 360 \<Longrightarrow>
           posb (made rr g s pos btype) m = (if m = n then pos else posb g m)"
proof -
  have ins: "inside g (slot_ofs s pos + 1)"
    using slot_inside[OF assms(1-5)] by simp
  note P = made_props(3)[OF assms(2-8) ins, of _ rr btype]
  {
    fix s' k' :: int assume h: "0 \<le> s'" "0 \<le> k'" "k' \<le> 4"
    define j where "j = slot_ofs s' k'"
    have j0: "0 \<le> j" "0 \<le> j + 1" using h by (simp_all add: j_def slot_ofs_eq)
    have e1: "(j = slot_ofs s pos) = (s' = s \<and> k' = pos)"
      unfolding j_def using slot_ofs_inj[OF h(2,3) assms(4,5)] by simp
    have e2: "j \<noteq> slot_ofs s pos + 1" "j + 1 \<noteq> slot_ofs s pos"
      unfolding j_def
      using slot_ofs_succ[OF h(2,3) assms(4,5), of s' s] slot_ofs_succ[OF assms(4,5) h(2,3), of s s']
      by simp_all
    have e3: "\<not> (j < planet_ofs n + 17)" "\<not> (j + 1 < planet_ofs n + 17)"
      using planet_below_slot[OF assms(8) _ h(1,2), of 16] by (simp_all add: j_def)
    have b0: "byte_at (made rr g s pos btype) j =
        (if s' = s \<and> k' = pos then n mod 256 else byte_at g j)"
      unfolding P[OF j0(1)] using e1 e2 e3 by simp
    have b1: "byte_at (made rr g s pos btype) (j + 1) =
        (if s' = s \<and> k' = pos then n div 256 else byte_at g (j + 1))"
      unfolding P[OF j0(2)] using e1 e2 e3 by auto
    show "slotv (made rr g s pos btype) s' k' =
             (if s' = s \<and> k' = pos then n else slotv g s' k')"
      unfolding slotv_def j_def[symmetric] b0 b1 by simp
  next
    fix m :: int assume h: "0 \<le> m" "m < 360"
    have lt: "\<And>c. c < 17 \<Longrightarrow> planet_ofs m + c < slot_ofs s pos"
      using planet_below_slot[OF h(2) _ assms(2,4)] by simp
    have pm0: "0 \<le> planet_ofs m + 2" "0 \<le> planet_ofs m + 3"
      using h(1) by (simp_all add: planet_ofs_eq)
    have r2: "uint (default_record s pos btype (rr (pos + btype * 5 + s * 15)) ! 2) = s"
      using assms(2,3) by (simp add: default_record_def uint_byte)
    have r3: "uint (default_record s pos btype (rr (pos + btype * 5 + s * 15)) ! 3) = pos"
      using assms(4,5) by (simp add: default_record_def uint_byte)
    have "byte_at (made rr g s pos btype) (planet_ofs m + 2) =
        (if m = n then s else byte_at g (planet_ofs m + 2))"
      unfolding P[OF pm0(1)] using lt[of 2] in_record_iff[of 2 n m] r2 by auto
    then show "starb (made rr g s pos btype) m = (if m = n then s else starb g m)"
      by (simp add: starb_def)
    have "byte_at (made rr g s pos btype) (planet_ofs m + 3) =
        (if m = n then pos else byte_at g (planet_ofs m + 3))"
      unfolding P[OF pm0(2)] using lt[of 3] in_record_iff[of 3 n m] r3 by auto
    then show "posb (made rr g s pos btype) m = (if m = n then pos else posb g m)"
      by (simp add: posb_def)
  }
qed

lemma planet_reads_loaded:
  assumes "loaded g" and "0 \<le> n" and "n < 360"
  shows "Planet_getstarnum g \<lparr>offset = planet_ofs n, number = n\<rparr> = Inr (starb g n)"
    and "Planet_getposition g \<lparr>offset = planet_ofs n, number = n\<rparr> = Inr (posb g n)"
  using planet_inside[OF assms, of 2] planet_inside[OF assms, of 3]
  by (simp_all add: Planet_getstarnum_def Planet_getposition_def getitem_inside starb_def posb_def)

lemma refers_back_loaded:
  assumes "loaded g" and "0 \<le> v"
  shows "refers_back g s k v \<longleftrightarrow>
           v < 360 \<and> v \<le> maxplanet g \<and> starb g v = s \<and> posb g v = k"
proof (cases "v < 360")
  case True
  then show ?thesis
    using planet_reads_loaded[OF assms(1,2) True] assms(2)
    by (auto simp add: refers_back_def Planet_init_ok)
next
  case False
  then show ?thesis by (simp add: refers_back_def Planet_init_def Planet_max_planets_def)
qed

lemma ball_slots:
  "(\<forall>s \<in> {0..71::int}. \<forall>k \<in> {0..4::int}. P s k) =
   (\<forall>s k. 0 \<le> s \<and> s < 72 \<and> 0 \<le> k \<and> k \<le> 4 \<longrightarrow> P s k)"
  by auto

lemma bex_slots:
  "(\<exists>s \<in> {0..71::int}. \<exists>k \<in> {0..4::int}. P s k) =
   (\<exists>s k. 0 \<le> s \<and> s < 72 \<and> 0 \<le> k \<and> k \<le> 4 \<and> P s k)"
proof -
  have "\<And>s::int. (s \<in> {0..71}) = (0 \<le> s \<and> s < 72)" by auto
  then show ?thesis unfolding Bex_def by auto
qed

lemma consistent_iff:
  "consistent g \<longleftrightarrow>
     loaded g \<and>
     (\<forall>s k. 0 \<le> s \<and> s < 72 \<and> 0 \<le> k \<and> k \<le> 4 \<and> slotv g s k \<noteq> 0xffff \<longrightarrow>
        slotv g s k < 360 \<and> slotv g s k \<le> maxplanet g \<and>
        starb g (slotv g s k) = s \<and> posb g (slotv g s k) = k)"
proof (cases "loaded g")
  case False
  then show ?thesis by (simp add: consistent_def)
next
  case True
  have each: "\<And>s k. 0 \<le> s \<Longrightarrow> s < 72 \<Longrightarrow> 0 \<le> k \<Longrightarrow> k \<le> 4 \<Longrightarrow>
      (case slot_entry g s k of Inl e \<Rightarrow> False
       | Inr v \<Rightarrow> v \<noteq> 0xffff \<longrightarrow> refers_back g s k v) =
      (slotv g s k \<noteq> 0xffff \<longrightarrow>
        slotv g s k < 360 \<and> slotv g s k \<le> maxplanet g \<and>
        starb g (slotv g s k) = s \<and> posb g (slotv g s k) = k)"
    using True slotv_range[of g]
    by (simp add: slot_entry_loaded refers_back_loaded)
  have "consistent g \<longleftrightarrow>
      (\<forall>s k. 0 \<le> s \<and> s < 72 \<and> 0 \<le> k \<and> k \<le> 4 \<longrightarrow>
         (case slot_entry g s k of Inl e \<Rightarrow> False
          | Inr v \<Rightarrow> v \<noteq> 0xffff \<longrightarrow> refers_back g s k v))"
    using True unfolding consistent_def ball_slots by simp
  also have "\<dots> \<longleftrightarrow>
     (\<forall>s k. 0 \<le> s \<and> s < 72 \<and> 0 \<le> k \<and> k \<le> 4 \<and> slotv g s k \<noteq> 0xffff \<longrightarrow>
        slotv g s k < 360 \<and> slotv g s k \<le> maxplanet g \<and>
        starb g (slotv g s k) = s \<and> posb g (slotv g s k) = k)"
    using each by blast
  finally show ?thesis using True by simp
qed

lemma existing_iff:
  assumes "loaded g"
  shows "existing g n \<longleftrightarrow>
     n \<noteq> 0xffff \<and> (\<exists>s k. 0 \<le> s \<and> s < 72 \<and> 0 \<le> k \<and> k \<le> 4 \<and> slotv g s k = n)"
proof -
  have "\<And>s k. 0 \<le> s \<and> s < 72 \<and> 0 \<le> k \<and> k \<le> 4 \<Longrightarrow>
      (slot_entry g s k = Inr n) = (slotv g s k = n)"
    using assms by (simp add: slot_entry_loaded)
  then show ?thesis unfolding existing_def bex_slots by auto
qed

lemma setposition_out_of_range:
  assumes "loaded g" and "0 \<le> a" and "a < 360" and "starb g a < 72"
    and "q < 0 \<or> 4 < q"
  shows "Planet_setposition g \<lparr>offset = planet_ofs a, number = a\<rparr> q = (Inl IndexError, g)"
proof -
  have "Planet_getstar g \<lparr>offset = planet_ofs a, number = a\<rparr> =
      Inr \<lparr>offset = 96979 + starb g a * 113, number = starb g a\<rparr>"
    using planet_reads_loaded(1)[OF assms(1-3)] starb_range[of g a] assms(4)
    by (simp add: Planet_getstar_def Star_init_Inr)
  then show ?thesis using assms(5) by (auto simp add: Planet_setposition_def planet_at_def)
qed

lemma setposition_same:
  assumes "loaded g" and "0 \<le> a" and "a < 360" and "starb g a = s" and "s < 72"
    and "posb g a = p" and "p \<le> 4" and "slotv g s p = v" and "v = 0xffff \<or> v < 360"
  shows "Planet_setposition g \<lparr>offset = planet_ofs a, number = a\<rparr> p = (Inr (), g)"
proof -
  have s0: "0 \<le> s" using starb_range[of g a] assms(4) by simp
  have p0: "0 \<le> p" using posb_range[of g a] assms(6) by simp
  have v0: "0 \<le> v" using slotv_range[of g s p] assms(8) by simp
  have star: "Planet_getstar g \<lparr>offset = planet_ofs a, number = a\<rparr> =
      Inr \<lparr>offset = 96979 + s * 113, number = s\<rparr>"
    using planet_reads_loaded(1)[OF assms(1-3)] s0 assms(4,5)
    by (simp add: Planet_getstar_def Star_init_Inr)
  have "short_at_offset g (slot_ofs s p) = Inr v"
    using slot_inside[OF assms(1) s0 assms(5) p0 assms(7)] assms(8)
    by (simp add: short_at_offset_inside slotv_def)
  then have "\<exists>other. planet_at g \<lparr>offset = 96979 + s * 113, number = s\<rparr> p = Inr other"
    using p0 assms(7,9) v0
    by (auto simp add: planet_at_def slot_ofs_eq Star_planet_offset_def Planet_init_ok)
  then show ?thesis
    using star planet_reads_loaded(2)[OF assms(1-3)] assms(6)
    by (auto simp add: Planet_setposition_def)
qed

lemma fields_cong:
  assumes "data g' = data g"
  shows "slotv g' s k = slotv g s k" and "starb g' n = starb g n" and "posb g' n = posb g n"
    and "loaded g' = loaded g"
  using assms by (simp_all add: slotv_def starb_def posb_def byte_at_def loaded_def)

lemma consistent_mono:
  assumes "consistent g" and "data g' = data g" and "maxplanet g \<le> maxplanet g'"
  shows "consistent g'"
  using assms(1,3) unfolding consistent_iff fields_cong[OF assms(2)] by fastforce

lemma consistent_moved:
  assumes cons: "consistent g"
    and a: "0 \<le> a" "a < 360" "a \<le> maxplanet g"
    and s: "0 \<le> s" "s < 72" and k: "0 \<le> k" "k \<le> 4"
    and here: "slotv g s k = a" "starb g a = s" "posb g a = k"
    and q: "0 \<le> q" "q \<le> 4" "q \<noteq> k"
  shows "consistent (moved g a q)"
proof -
  have ld: "loaded g" using cons by (simp add: consistent_iff)
  have INV: "\<And>s k. 0 \<le> s \<Longrightarrow> s < 72 \<Longrightarrow> 0 \<le> k \<Longrightarrow> k \<le> 4 \<Longrightarrow> slotv g s k \<noteq> 0xffff \<Longrightarrow>
        slotv g s k < 360 \<and> slotv g s k \<le> maxplanet g \<and>
        starb g (slotv g s k) = s \<and> posb g (slotv g s k) = k"
    using cons unfolding consistent_iff by blast
  define v where "v = slotv g s q"
  have v0: "0 \<le> v" using slotv_range[of g s q] by (simp add: v_def)
  have vI: "v \<noteq> 0xffff \<Longrightarrow> v < 360 \<and> v \<le> maxplanet g \<and> starb g v = s \<and> posb g v = q"
    using INV[OF s q(1,2)] by (simp add: v_def)
  have vc: "v = 0xffff \<or> v < 360" using vI by blast
  have va: "v \<noteq> a" using vI here(3) q(3) a(2) by auto
  note SL = slotv_moved[OF ld a(1,2) here(2) s(2) here(3) k(2) q v_def[symmetric] vc]
  note PF = planet_fields_moved[OF ld a(1,2) here(2) s(2) here(3) k(2) q v_def[symmetric] vc]
  have "\<And>s' k'. 0 \<le> s' \<and> s' < 72 \<and> 0 \<le> k' \<and> k' \<le> 4 \<and> slotv (moved g a q) s' k' \<noteq> 0xffff \<longrightarrow>
        slotv (moved g a q) s' k' < 360 \<and> slotv (moved g a q) s' k' \<le> maxplanet (moved g a q) \<and>
        starb (moved g a q) (slotv (moved g a q) s' k') = s' \<and>
        posb (moved g a q) (slotv (moved g a q) s' k') = k'"
  proof (intro impI)
    fix s' k' :: int
    assume h: "0 \<le> s' \<and> s' < 72 \<and> 0 \<le> k' \<and> k' \<le> 4 \<and> slotv (moved g a q) s' k' \<noteq> 0xffff"
    then have r: "0 \<le> s'" "s' < 72" "0 \<le> k'" "k' \<le> 4" by simp_all
    note sl = SL[OF r(1,3,4)]
    consider (old) "s' = s \<and> k' = k" | (new) "s' = s \<and> k' = q" |
      (other) "\<not> (s' = s \<and> k' = k)" "\<not> (s' = s \<and> k' = q)" by blast
    then show "slotv (moved g a q) s' k' < 360 \<and> slotv (moved g a q) s' k' \<le> maxplanet (moved g a q) \<and>
        starb (moved g a q) (slotv (moved g a q) s' k') = s' \<and>
        posb (moved g a q) (slotv (moved g a q) s' k') = k'"
    proof cases
      case old
      then have w: "slotv (moved g a q) s' k' = v" using sl by (simp add: v_def)
      then have vn: "v \<noteq> 0xffff" using h by simp
      show ?thesis unfolding w
        using vI[OF vn] PF[OF v0, of ] va vn old by (simp add: moved_frame)
    next
      case new
      then have w: "slotv (moved g a q) s' k' = a" using sl q(3) here(1) by simp
      show ?thesis unfolding w
        using PF[OF a(1,2)] a new here(2) vI by (auto simp add: moved_frame)
    next
      case other
      define w where "w = slotv g s' k'"
      have w: "slotv (moved g a q) s' k' = w" using sl other by (simp add: w_def)
      then have wn: "w \<noteq> 0xffff" using h by simp
      have wI: "w < 360 \<and> w \<le> maxplanet g \<and> starb g w = s' \<and> posb g w = k'"
        using INV[OF r] wn by (simp add: w_def)
      have w0: "0 \<le> w" using slotv_range[of g s' k'] by (simp add: w_def)
      have wa: "w \<noteq> a" using wI here(2,3) other(1) by auto
      have wv: "v \<noteq> 0xffff \<Longrightarrow> w \<noteq> v" using wI vI other(2) by auto
      show ?thesis unfolding w
        using PF[OF w0, of ] wI wa wv by (auto simp add: moved_frame)
    qed
  qed
  then show ?thesis unfolding consistent_iff[of "moved g a q"] using ld
    by (simp add: moved_frame)
qed

lemma consistent_setposition:
  assumes "consistent g" and "existing g a" and "Planet_init a = Inr A"
  shows "consistent (snd (Planet_setposition g A q))"
proof -
  have ld: "loaded g" using assms(1) by (simp add: consistent_iff)
  have INV: "\<And>s k. 0 \<le> s \<Longrightarrow> s < 72 \<Longrightarrow> 0 \<le> k \<Longrightarrow> k \<le> 4 \<Longrightarrow> slotv g s k \<noteq> 0xffff \<Longrightarrow>
        slotv g s k < 360 \<and> slotv g s k \<le> maxplanet g \<and>
        starb g (slotv g s k) = s \<and> posb g (slotv g s k) = k"
    using assms(1) unfolding consistent_iff by blast
  obtain s k where sk: "0 \<le> s" "s < 72" "0 \<le> k" "k \<le> 4" "slotv g s k = a" and an: "a \<noteq> 0xffff"
    using assms(2) unfolding existing_iff[OF ld] by blast
  have aI: "a < 360" "a \<le> maxplanet g" "starb g a = s" "posb g a = k"
    using INV[OF sk(1-4)] sk(5) an by simp_all
  have a0: "0 \<le> a" using slotv_range[of g s k] sk(5) by simp
  have A: "A = \<lparr>offset = planet_ofs a, number = a\<rparr>"
    using assms(3) by (simp add: Planet_init_Inr planet_ofs_eq)
  consider (range) "q < 0 \<or> 4 < q" | (same) "q = k" | (move) "0 \<le> q" "q \<le> 4" "q \<noteq> k"
    by linarith
  then show ?thesis
  proof cases
    case range
    show ?thesis
      using setposition_out_of_range[OF ld a0 aI(1) _ range] aI(3) sk(2) assms(1)
      by (simp add: A)
  next
    case same
    have "slotv g s k = 0xffff \<or> slotv g s k < 360" using sk(5) aI(1) by simp
    from setposition_same[OF ld a0 aI(1) aI(3) sk(2) aI(4) sk(4) refl this]
    show ?thesis using assms(1) by (simp add: A same)
  next
    case move
    have vc: "slotv g s q = 0xffff \<or> slotv g s q < 360"
      using INV[OF sk(1,2) move(1,2)] by blast
    from setposition_eq(1)[OF ld a0 aI(1) aI(3) sk(2) aI(4) sk(4) move refl vc]
    have "snd (Planet_setposition g A q) = moved g a q" by (simp add: A)
    then show ?thesis
      using consistent_moved[OF assms(1) a0 aI(1,2) sk(1-4) sk(5) aI(3,4) move] by simp
  qed
qed

lemma consistent_made:
  assumes cons: "consistent g" and s: "0 \<le> s" "s < 72" and pos: "0 \<le> pos" "pos \<le> 4"
    and n: "n = maxplanet g + 1" "0 \<le> n" "n < 360"
  shows "consistent (made rr g s pos btype)"
proof -
  have ld: "loaded g" using cons by (simp add: consistent_iff)
  have INV: "\<And>s k. 0 \<le> s \<Longrightarrow> s < 72 \<Longrightarrow> 0 \<le> k \<Longrightarrow> k \<le> 4 \<Longrightarrow> slotv g s k \<noteq> 0xffff \<Longrightarrow>
        slotv g s k < 360 \<and> slotv g s k \<le> maxplanet g \<and>
        starb g (slotv g s k) = s \<and> posb g (slotv g s k) = k"
    using cons unfolding consistent_iff by blast
  note F = made_fields[OF ld s pos n, where rr=rr and btype=btype]
  have ins: "inside g (slot_ofs s pos + 1)" using slot_inside[OF ld s pos] by simp
  have mx: "maxplanet (made rr g s pos btype) = n"
    using made_props(1)[OF s pos n ins, where rr=rr and btype=btype] .
  have ld': "loaded (made rr g s pos btype)" using loaded_made[OF ld] n by simp
  have "\<And>s' k'. 0 \<le> s' \<and> s' < 72 \<and> 0 \<le> k' \<and> k' \<le> 4 \<and>
        slotv (made rr g s pos btype) s' k' \<noteq> 0xffff \<longrightarrow>
        slotv (made rr g s pos btype) s' k' < 360 \<and>
        slotv (made rr g s pos btype) s' k' \<le> maxplanet (made rr g s pos btype) \<and>
        starb (made rr g s pos btype) (slotv (made rr g s pos btype) s' k') = s' \<and>
        posb (made rr g s pos btype) (slotv (made rr g s pos btype) s' k') = k'"
  proof (intro impI)
    fix s' k' :: int
    assume h: "0 \<le> s' \<and> s' < 72 \<and> 0 \<le> k' \<and> k' \<le> 4 \<and>
        slotv (made rr g s pos btype) s' k' \<noteq> 0xffff"
    then have r: "0 \<le> s'" "s' < 72" "0 \<le> k'" "k' \<le> 4" by simp_all
    note sl = F(1)[OF r(1,3,4)]
    show "slotv (made rr g s pos btype) s' k' < 360 \<and>
        slotv (made rr g s pos btype) s' k' \<le> maxplanet (made rr g s pos btype) \<and>
        starb (made rr g s pos btype) (slotv (made rr g s pos btype) s' k') = s' \<and>
        posb (made rr g s pos btype) (slotv (made rr g s pos btype) s' k') = k'"
    proof (cases "s' = s \<and> k' = pos")
      case True
      then have w: "slotv (made rr g s pos btype) s' k' = n" using sl by simp
      show ?thesis unfolding w mx using F(2,3)[OF n(2,3)] n True by simp
    next
      case False
      define w where "w = slotv g s' k'"
      have w: "slotv (made rr g s pos btype) s' k' = w" using sl False by (simp add: w_def)
      then have wn: "w \<noteq> 0xffff" using h by simp
      have wI: "w < 360 \<and> w \<le> maxplanet g \<and> starb g w = s' \<and> posb g w = k'"
        using INV[OF r] wn by (simp add: w_def)
      have w0: "0 \<le> w" using slotv_range[of g s' k'] by (simp add: w_def)
      have "w \<noteq> n" using wI n(1) by simp
      then show ?thesis unfolding w mx using F(2,3)[OF w0] wI n(1) by simp
    qed
  qed
  then show ?thesis unfolding consistent_iff[of "made rr g s pos btype"] using ld' by simp
qed

lemma consistent_make_planet:
  assumes "consistent g" and "Star_init s = Inr self"
  shows "consistent (snd (make_planet rr g self pos btype))"
proof (cases "make_planet rr g self pos btype")
  case (Pair r g')
  show ?thesis
  proof (cases r)
    case (Inl e)
    note F = make_planet_failure[OF assms(2) Pair[unfolded Inl]]
    have "maxplanet g \<le> maxplanet g'" using F(2) by (simp split: if_splits)
    then show ?thesis using consistent_mono[OF assms(1) F(1)] Pair by simp
  next
    case (Inr newp)
    note I = make_planet_Inr[OF assms(2) Pair[unfolded Inr]]
    have "consistent (made rr g s pos btype)"
      using consistent_made[OF assms(1) _ _ _ _ refl, where s=s and pos=pos and rr=rr and btype=btype] I by simp
    then show ?thesis using I Pair by simp
  qed
qed

lemma consistent_exec:
  assumes "consistent g"
    and "case c of SetPosition n pos \<Rightarrow> existing g n | MakePlanet s pos btype \<Rightarrow> True"
  shows "consistent (exec rr g c)"
proof (cases c)
  case (SetPosition n pos)
  show ?thesis
  proof (cases "Planet_init n")
    case (Inl e)
    then show ?thesis using assms(1) SetPosition by simp
  next
    case (Inr A)
    then show ?thesis
      using consistent_setposition[OF assms(1) _ Inr] assms(2) SetPosition by simp
  qed
next
  case (MakePlanet s pos btype)
  show ?thesis
  proof (cases "Star_init s")
    case (Inl e)
    then show ?thesis using assms(1) MakePlanet by simp
  next
    case (Inr star)
    then show ?thesis using consistent_make_planet[OF assms(1) Inr] MakePlanet by simp
  qed
qed

lemma consistent_run:
  "consistent g \<Longrightarrow> on_existing rr g cs \<Longrightarrow> consistent (run rr g cs)"
proof (induction cs arbitrary: g)
  case Nil
  then show ?case by simp
next
  case (Cons c cs)
  show ?case
  proof (cases c)
    case (SetPosition n pos)
    then have "existing g n" "on_existing rr (exec rr g c) cs" using Cons.prems(2) by simp_all
    moreover from this have "consistent (exec rr g c)"
      using consistent_exec[OF Cons.prems(1), of c rr] SetPosition by simp
    ultimately show ?thesis using Cons.IH by simp
  next
    case (MakePlanet s pos btype)
    then have "on_existing rr (exec rr g c) cs" using Cons.prems(2) by simp
    moreover have "consistent (exec rr g c)"
      using consistent_exec[OF Cons.prems(1), of c rr] MakePlanet by simp
    ultimately show ?thesis using Cons.IH by simp
  qed
qed

lemma consistent_position_agrees:
  assumes "consistent g" and "existing g n"
  shows "position_agrees g n"
proof -
  have ld: "loaded g" using assms(1) by (simp add: consistent_iff)
  have INV: "\<And>s k. 0 \<le> s \<Longrightarrow> s < 72 \<Longrightarrow> 0 \<le> k \<Longrightarrow> k \<le> 4 \<Longrightarrow> slotv g s k \<noteq> 0xffff \<Longrightarrow>
        slotv g s k < 360 \<and> slotv g s k \<le> maxplanet g \<and>
        starb g (slotv g s k) = s \<and> posb g (slotv g s k) = k"
    using assms(1) unfolding consistent_iff by blast
  obtain s k where sk: "0 \<le> s" "s < 72" "0 \<le> k" "k \<le> 4" "slotv g s k = n" and nn: "n \<noteq> 0xffff"
    using assms(2) unfolding existing_iff[OF ld] by blast
  have nI: "n < 360" "starb g n = s" "posb g n = k"
    using INV[OF sk(1-4)] sk(5) nn by simp_all
  have n0: "0 \<le> n" using slotv_range[of g s k] sk(5) by simp
  have other: "\<forall>q\<in>{0..4}. q \<noteq> k \<longrightarrow> slot_entry g s q \<noteq> Inr n"
  proof (intro ballI impI)
    fix q :: int assume q: "q \<in> {0..4}" "q \<noteq> k"
    then have qr: "0 \<le> q" "q \<le> 4" by simp_all
    have "slotv g s q \<noteq> n"
    proof
      assume e: "slotv g s q = n"
      then have "posb g n = q" using INV[OF sk(1,2) qr] nn by simp
      then show False using nI(3) q(2) by simp
    qed
    then show "slot_entry g s q \<noteq> Inr n" using slot_entry_loaded[OF ld sk(1,2) qr] by simp
  qed
  show ?thesis
    unfolding position_agrees_def
    using Planet_init_ok[OF n0 nI(1)] planet_reads_loaded[OF ld n0 nI(1)] nI(2,3)
      slot_entry_loaded[OF ld sk(1-4)] sk(5) other
    by simp
qed

text \<open>
  Claim C1, as amended. Start from a consistent game and run any sequence of
  \<^verbatim>\<open>make_planet\<close> calls and of position-setter calls, each setter call being made on a
  planet that exists when it is called. Then for every planet \<open>n\<close> that exists
  afterwards, the slot table of its star holds \<open>n\<close> at the planet's stored position and
  at no other position.
\<close>

theorem position_consistency:
  assumes "consistent g" and "on_existing rr g cs" and "existing (run rr g cs) n"
  shows "position_agrees (run rr g cs) n"
  using consistent_position_agrees[OF consistent_run[OF assms(1,2)] assms(3)] .

lemma Planet_init_bad: "360 \<le> n \<Longrightarrow> Planet_init n = Inl ValueError"
  by (simp add: Planet_init_def Planet_max_planets_def)

lemma planet_at_loaded:
  assumes "loaded g" and "0 \<le> s" and "s < 72" and "0 \<le> k" and "k \<le> 4"
  shows "planet_at g \<lparr>offset = 96979 + s * 113, number = s\<rparr> k =
           (if slotv g s k = 0xffff then Inr None
            else if slotv g s k < 360
              then Inr (Some \<lparr>offset = planet_ofs (slotv g s k), number = slotv g s k\<rparr>)
              else Inl ValueError)"
proof -
  have "short_at_offset g (slot_ofs s k) = Inr (slotv g s k)"
    using slot_inside[OF assms] by (simp add: short_at_offset_inside slotv_def)
  then show ?thesis using assms(4,5) slotv_range[of g s k]
    by (simp add: planet_at_def slot_ofs_eq Star_planet_offset_def Planet_init_ok
        Planet_init_bad)
qed

lemma Planet_getstar_D:
  assumes "Planet_init a = Inr A" and "loaded g" and "Planet_getstar g A = Inr S"
  shows "starb g a < 72 \<and> S = \<lparr>offset = 96979 + starb g a * 113, number = starb g a\<rparr>"
proof -
  have a: "0 \<le> a" "a < 360" "A = \<lparr>offset = planet_ofs a, number = a\<rparr>"
    using assms(1) by (auto simp add: Planet_init_Inr planet_ofs_eq)
  have "Star_init (starb g a) = Inr S"
    using assms(3) planet_reads_loaded(1)[OF assms(2) a(1,2)] by (simp add: Planet_getstar_def a(3))
  then show ?thesis by (simp add: Star_init_Inr)
qed

lemma planet_at_Some_D:
  assumes "loaded g" and "0 \<le> s" and "s < 72"
    and "planet_at g \<lparr>offset = 96979 + s * 113, number = s\<rparr> k = Inr (Some P)"
  shows "0 \<le> k \<and> k \<le> 4 \<and> slotv g s k = number P \<and> number P < 360"
proof -
  have k: "0 \<le> k" "k \<le> 4" using assms(4) by (auto simp add: planet_at_def split: if_splits)
  show ?thesis using assms(4) k unfolding planet_at_loaded[OF assms(1-3) k]
    by (auto split: if_splits)
qed

section \<open>Swapping two planets\<close>

text \<open>
  Claim C3. In a loaded buffer, let \<open>A\<close> and \<open>B\<close> be two different planets, \<open>S\<close> the
  star of \<open>A\<close>, with \<open>A\<close> in slot \<open>p\<close> and \<open>B\<close> in slot \<open>q\<close> of \<open>S\<close>'s table and
  with position bytes \<open>p\<close> and \<open>q\<close>. Then setting \<open>A\<close>'s position to \<open>q\<close> returns, the
  position byte of \<open>A\<close> is \<open>q\<close> and that of \<open>B\<close> is \<open>p\<close>, and the slot table of \<open>S\<close>
  holds \<open>A\<close> at \<open>q\<close> and \<open>B\<close> at \<open>p\<close>.
\<close>

theorem setposition_swaps:
  assumes "loaded g"
    and "Planet_init a = Inr A" and "Planet_init b = Inr B" and "a \<noteq> b"
    and "Planet_getstar g A = Inr S"
    and "planet_at g S p = Inr (Some A)" and "planet_at g S q = Inr (Some B)"
    and "Planet_getposition g A = Inr p" and "Planet_getposition g B = Inr q"
  shows "fst (Planet_setposition g A q) = Inr () \<and>
         Planet_getposition (snd (Planet_setposition g A q)) A = Inr q \<and>
         Planet_getposition (snd (Planet_setposition g A q)) B = Inr p \<and>
         planet_at (snd (Planet_setposition g A q)) S q = Inr (Some A) \<and>
         planet_at (snd (Planet_setposition g A q)) S p = Inr (Some B)"
proof -
  have a: "0 \<le> a" "a < 360" and A: "A = \<lparr>offset = planet_ofs a, number = a\<rparr>"
    using assms(2) by (auto simp add: Planet_init_Inr planet_ofs_eq)
  have b: "0 \<le> b" "b < 360" and B: "B = \<lparr>offset = planet_ofs b, number = b\<rparr>"
    using assms(3) by (auto simp add: Planet_init_Inr planet_ofs_eq)
  define s where "s = starb g a"
  have s: "0 \<le> s" "s < 72" and S: "S = \<lparr>offset = 96979 + s * 113, number = s\<rparr>"
    using Planet_getstar_D[OF assms(2,1,5)] starb_range[of g a] by (simp_all add: s_def)
  have p: "0 \<le> p" "p \<le> 4" "slotv g s p = a"
    using planet_at_Some_D[OF assms(1) s assms(6)[unfolded S]] by (simp_all add: A)
  have q: "0 \<le> q" "q \<le> 4" "slotv g s q = b"
    using planet_at_Some_D[OF assms(1) s assms(7)[unfolded S]] by (simp_all add: B)
  have pq: "q \<noteq> p" using p(3) q(3) assms(4) by auto
  have pa: "posb g a = p" and pb: "posb g b = q"
    using assms(8,9) planet_reads_loaded(2)[OF assms(1) a] planet_reads_loaded(2)[OF assms(1) b]
    by (simp_all add: A B)
  have vc: "b = 0xffff \<or> b < 360" using b by simp
  note E = setposition_eq(1)[OF assms(1) a s_def[symmetric] s(2) pa p(2) q(1,2) pq q(3) vc]
  note SL = slotv_moved[OF assms(1) a s_def[symmetric] s(2) pa p(2) q(1,2) pq q(3) vc]
  note PF = planet_fields_moved(2)[OF assms(1) a s_def[symmetric] s(2) pa p(2) q(1,2) pq q(3) vc]
  define g' where "g' = moved g a q"
  have res: "Planet_setposition g A q = (Inr (), g')" using E by (simp add: A g'_def)
  have ld: "loaded g'" using assms(1) by (simp add: g'_def moved_frame)
  have b65: "b \<noteq> 0xffff" using b by simp
  have "posb g' a = q" using PF[OF a] b65 pb by (simp add: g'_def)
  then have r1: "Planet_getposition g' A = Inr q"
    using planet_reads_loaded(2)[OF ld a] by (simp add: A)
  have "posb g' b = p" using PF[OF b] b65 assms(4) by (simp add: g'_def)
  then have r2: "Planet_getposition g' B = Inr p"
    using planet_reads_loaded(2)[OF ld b] by (simp add: B)
  have "slotv g' s q = a" using SL[OF s(1) q(1,2)] pq p(3) by (simp add: g'_def)
  then have r3: "planet_at g' S q = Inr (Some A)"
    using planet_at_loaded[OF ld s q(1,2)] a by (simp add: S A)
  have "slotv g' s p = b" using SL[OF s(1) p(1,2)] q(3) by (simp add: g'_def)
  then have r4: "planet_at g' S p = Inr (Some B)"
    using planet_at_loaded[OF ld s p(1,2)] b by (simp add: S B)
  show ?thesis using res r1 r2 r3 r4 by simp
qed

lemma planet4_init: "Planet_init 4 = Inr planet4"
  by (simp add: Planet_init_Inr planet4_def)

lemma game_two_facts:
  "loaded game_two"
  "Planet_getstar game_two planet3 = Inr star0"
  "planet_at game_two star0 0 = Inr (Some planet3)"
  "planet_at game_two star0 2 = Inr (Some planet4)"
  "Planet_getposition game_two planet3 = Inr 0"
  "Planet_getposition game_two planet4 = Inr 2"
  by (simp_all add: loaded_def game_two_def blank_save_def Star_block_offset_def
      Star_max_stars_def Star_block_size_def Planet_getstar_def Planet_getstarnum_def
      Planet_getposition_def planet_at_def short_at_offset_def getitem_def array_index_def
      planet3_def planet4_def star0_def Star_planet_offset_def push_bit_eq_mult
      Planet_init_Inr Star_init_Inr Planet_init_def Planet_max_planets_def
      Planet_block_offset_def Planet_block_size_def)

theorem setposition_swaps_witness:
  "loaded game_two \<and> Planet_init 3 = Inr planet3 \<and> Planet_init 4 = Inr planet4 \<and>
   (3::int) \<noteq> 4 \<and>
   Planet_getstar game_two planet3 = Inr star0 \<and>
   planet_at game_two star0 0 = Inr (Some planet3) \<and>
   planet_at game_two star0 2 = Inr (Some planet4) \<and>
   Planet_getposition game_two planet3 = Inr 0 \<and>
   Planet_getposition game_two planet4 = Inr 2 \<and>
   fst (Planet_setposition game_two planet3 2) = Inr () \<and>
   Planet_getposition (snd (Planet_setposition game_two planet3 2)) planet3 = Inr 2 \<and>
   Planet_getposition (snd (Planet_setposition game_two planet3 2)) planet4 = Inr 0 \<and>
   planet_at (snd (Planet_setposition game_two planet3 2)) star0 2 = Inr (Some planet3) \<and>
   planet_at (snd (Planet_setposition game_two planet3 2)) star0 0 = Inr (Some planet4)"
  using setposition_swaps[OF game_two_facts(1) planet3_init planet4_init _ game_two_facts(2-6)]
    game_two_facts planet3_init planet4_init
  by simp

lemma blank_loaded: "loaded game_blank"
  by (simp add: loaded_def game_blank_def blank_save_def Star_block_offset_def
      Star_max_stars_def Star_block_size_def)

lemma blank_slotv:
  assumes "0 \<le> s" and "s < 72" and "0 \<le> k" and "k \<le> 4"
  shows "slotv game_blank s k = 0xffff"
proof -
  have "nat (97053 + s * 113 + 2 * k) < 139095" "nat (97053 + s * 113 + 2 * k + 1) < 139095"
    using assms by auto
  then show ?thesis
    by (simp add: slotv_def slot_ofs_eq byte_at_def game_blank_def blank_save_def)
qed

lemma blank_consistent: "consistent game_blank"
  unfolding consistent_iff using blank_loaded blank_slotv by simp

lemma made_blank_facts:
  "loaded (made zero_rng game_blank 0 2 1)"
  "slotv (made zero_rng game_blank 0 2 1) 0 2 = 4"
  "slotv (made zero_rng game_blank 0 2 1) 0 0 = 0xffff"
  "starb (made zero_rng game_blank 0 2 1) 4 = 0"
  "posb (made zero_rng game_blank 0 2 1) 4 = 2"
proof -
  have n: "(4::int) = maxplanet game_blank + 1" by (simp add: game_blank_def)
  note F = made_fields[OF blank_loaded _ _ _ _ n, where s=0 and pos=2 and rr=zero_rng and btype=1]
  show "loaded (made zero_rng game_blank 0 2 1)"
    using loaded_made[OF blank_loaded] by (simp add: game_blank_def)
  show "slotv (made zero_rng game_blank 0 2 1) 0 2 = 4" using F(1)[of 0 2] by simp
  show "slotv (made zero_rng game_blank 0 2 1) 0 0 = 0xffff"
    using F(1)[of 0 0] blank_slotv[of 0 0] by simp
  show "starb (made zero_rng game_blank 0 2 1) 4 = 0" using F(2)[of 4] by simp
  show "posb (made zero_rng game_blank 0 2 1) 4 = 2" using F(3)[of 4] by simp
qed

lemma run_blank:
  "exec zero_rng game_blank (MakePlanet 0 2 1) = made zero_rng game_blank 0 2 1"
  "run zero_rng game_blank [MakePlanet 0 2 1, SetPosition 4 0] =
     moved (made zero_rng game_blank 0 2 1) 4 0"
proof -
  show e: "exec zero_rng game_blank (MakePlanet 0 2 1) = made zero_rng game_blank 0 2 1"
    using star0_init make_planet_blank by simp
  have vc: "(0xffff::int) = 0xffff \<or> (0xffff::int) < 360" by simp
  from setposition_eq(1)[OF made_blank_facts(1) _ _ made_blank_facts(4) _ made_blank_facts(5)
      _ _ _ _ made_blank_facts(3) vc]
  have "Planet_setposition (made zero_rng game_blank 0 2 1) planet4 0 =
      (Inr (), moved (made zero_rng game_blank 0 2 1) 4 0)"
    by (simp add: planet4_def planet_ofs_eq)
  then show "run zero_rng game_blank [MakePlanet 0 2 1, SetPosition 4 0] =
     moved (made zero_rng game_blank 0 2 1) 4 0"
    using e planet4_init by simp
qed

lemma run_blank_slot:
  "loaded (moved (made zero_rng game_blank 0 2 1) 4 0)"
  "slotv (moved (made zero_rng game_blank 0 2 1) 4 0) 0 0 = 4"
proof -
  show "loaded (moved (made zero_rng game_blank 0 2 1) 4 0)"
    using made_blank_facts(1) by (simp add: moved_frame)
  have vc: "(0xffff::int) = 0xffff \<or> (0xffff::int) < 360" by simp
  from slotv_moved[OF made_blank_facts(1) _ _ made_blank_facts(4) _ made_blank_facts(5)
      _ _ _ _ made_blank_facts(3) vc, of 0 0]
  show "slotv (moved (made zero_rng game_blank 0 2 1) 4 0) 0 0 = 4"
    using made_blank_facts(2) by simp
qed

theorem position_consistency_witness:
  "consistent game_blank \<and>
   on_existing zero_rng game_blank [MakePlanet 0 2 1, SetPosition 4 0] \<and>
   existing (run zero_rng game_blank [MakePlanet 0 2 1, SetPosition 4 0]) 4 \<and>
   slot_entry (run zero_rng game_blank [MakePlanet 0 2 1, SetPosition 4 0]) 0 0 = Inr 4 \<and>
   position_agrees (run zero_rng game_blank [MakePlanet 0 2 1, SetPosition 4 0]) 4"
proof -
  have e1: "existing (made zero_rng game_blank 0 2 1) 4"
    unfolding existing_iff[OF made_blank_facts(1)]
    using made_blank_facts(2) by (intro conjI exI[of _ 0] exI[of _ 2]) simp_all
  have on: "on_existing zero_rng game_blank [MakePlanet 0 2 1, SetPosition 4 0]"
    using e1 by (simp add: run_blank(1) del: exec.simps)
  have e2: "existing (run zero_rng game_blank [MakePlanet 0 2 1, SetPosition 4 0]) 4"
    unfolding run_blank(2) existing_iff[OF run_blank_slot(1)]
    using run_blank_slot(2) by (intro conjI exI[of _ 0]) simp_all
  have sl: "slot_entry (run zero_rng game_blank [MakePlanet 0 2 1, SetPosition 4 0]) 0 0 = Inr 4"
    unfolding run_blank(2)
    using slot_entry_loaded[OF run_blank_slot(1), of 0 0] run_blank_slot(2) by simp
  from position_consistency[OF blank_consistent on e2]
  show ?thesis using blank_consistent on e2 sl by simp
qed

section \<open>A position setter called on a record that no slot refers to\<close>

lemma stray_pokes:
  "game_stray = pokes (game_blank\<lparr>maxplanet := 4\<rparr>)
     [(97053, 4), (97054, 0), (90927, 0), (90928, 0), (90978, 0), (90979, 0)]"
  by (simp add: game_stray_def game_blank_def poke_def)

lemma stray_writable:
  "writable (game_blank\<lparr>maxplanet := 4\<rparr>)
     [(97053, 4), (97054, 0), (90927, 0), (90928, 0), (90978, 0), (90979, 0)]"
  by (simp add: writable_Cons writable_Nil inside_def game_blank_def blank_save_def)

lemma stray_byte:
  "0 \<le> j \<Longrightarrow> byte_at game_stray j =
     (if j = 90979 then 0 else if j = 90978 then 0 else if j = 90928 then 0
      else if j = 90927 then 0 else if j = 97054 then 0 else if j = 97053 then 4
      else byte_at game_blank j)"
  unfolding stray_pokes byte_at_pokes[OF stray_writable] by (simp add: byte_at_def)

lemma stray_facts:
  "loaded game_stray"
  "maxplanet game_stray = 4"
  "\<And>s k. 0 \<le> s \<Longrightarrow> s < 72 \<Longrightarrow> 0 \<le> k \<Longrightarrow> k \<le> 4 \<Longrightarrow>
     slotv game_stray s k = (if s = 0 \<and> k = 0 then 4 else 0xffff)"
  "starb game_stray 4 = 0" "posb game_stray 4 = 0"
  "starb game_stray 7 = 0" "posb game_stray 7 = 0"
proof -
  show "loaded game_stray"
    by (simp add: loaded_def game_stray_def blank_save_def Star_block_offset_def
        Star_max_stars_def Star_block_size_def)
  show "maxplanet game_stray = 4" by (simp add: game_stray_def)
  show "starb game_stray 4 = 0" by (simp add: starb_def planet_ofs_eq stray_byte)
  show "posb game_stray 4 = 0" by (simp add: posb_def planet_ofs_eq stray_byte)
  show "starb game_stray 7 = 0" by (simp add: starb_def planet_ofs_eq stray_byte)
  show "posb game_stray 7 = 0" by (simp add: posb_def planet_ofs_eq stray_byte)
  fix s k :: int assume h: "0 \<le> s" "s < 72" "0 \<le> k" "k \<le> 4"
  define j where "j = slot_ofs s k"
  have z: "slot_ofs 0 0 = 97053" by (simp add: slot_ofs_eq)
  have j0: "97053 \<le> j" using h by (simp add: j_def slot_ofs_eq)
  have e1: "(j = 97053) = (s = 0 \<and> k = 0)"
    using slot_ofs_inj[OF h(3,4), of 0 s 0] by (simp add: j_def z)
  have e2: "j \<noteq> 97054" "j + 1 \<noteq> 97053"
    using slot_ofs_succ[OF h(3,4), of 0 s 0] j0 by (simp_all add: j_def z)
  have b0: "byte_at game_stray j = (if s = 0 \<and> k = 0 then 4 else byte_at game_blank j)"
    using j0 e1 e2 by (simp add: stray_byte)
  have b1: "byte_at game_stray (j + 1) = (if s = 0 \<and> k = 0 then 0 else byte_at game_blank (j + 1))"
    using j0 e1 e2 by (simp add: stray_byte)
  show "slotv game_stray s k = (if s = 0 \<and> k = 0 then 4 else 0xffff)"
    using blank_slotv[OF h] unfolding slotv_def j_def[symmetric] b0 b1 by simp
qed

lemma stray_consistent: "consistent game_stray"
  unfolding consistent_iff
  using stray_facts(1,2,4,5) stray_facts(3) by auto

lemma stray_not_existing: "\<not> existing game_stray 7"
  unfolding existing_iff[OF stray_facts(1)] using stray_facts(3) by auto

lemma planet7_init: "Planet_init 7 = Inr planet7"
  by (simp add: Planet_init_Inr planet7_def)

lemma stray_setposition:
  "Planet_setposition game_stray planet7 1 = (Inr (), moved game_stray 7 1)"
proof -
  have vc: "(0xffff::int) = 0xffff \<or> (0xffff::int) < 360" by simp
  have sl: "slotv game_stray 0 1 = 0xffff" using stray_facts(3)[of 0 1] by simp
  from setposition_eq(1)[OF stray_facts(1) _ _ stray_facts(6) _ stray_facts(7) _ _ _ _ sl vc]
  show ?thesis by (simp add: planet7_def planet_ofs_eq)
qed

lemma stray_run:
  "run zero_rng game_stray [SetPosition 7 1] = moved game_stray 7 1"
  using stray_setposition planet7_init by simp

text \<open>
  The claim as stated allows any position-setter call. In the consistent game
  \<open>game_stray\<close> planet 4 is at position 0 of star 0, and record 7, which no slot refers
  to, carries star 0 and position 0. Setting the position of a view of record 7 to 1
  returns and exchanges slots 0 and 1 of star 0: planet 4 still exists and its position
  byte is still 0, but slot 0 of its star is now empty and slot 1 holds it.
\<close>

theorem position_consistency_counterexample:
  "consistent game_stray \<and> \<not> existing game_stray 7 \<and> existing game_stray 4 \<and>
   Planet_init 7 = Inr planet7 \<and>
   Planet_getstarnum game_stray planet7 = Inr 0 \<and>
   Planet_getposition game_stray planet7 = Inr 0 \<and>
   fst (Planet_setposition game_stray planet7 1) = Inr () \<and>
   existing (run zero_rng game_stray [SetPosition 7 1]) 4 \<and>
   Planet_getstarnum (run zero_rng game_stray [SetPosition 7 1]) planet4 = Inr 0 \<and>
   Planet_getposition (run zero_rng game_stray [SetPosition 7 1]) planet4 = Inr 0 \<and>
   slot_entry (run zero_rng game_stray [SetPosition 7 1]) 0 0 = Inr 0xffff \<and>
   slot_entry (run zero_rng game_stray [SetPosition 7 1]) 0 1 = Inr 4 \<and>
   \<not> position_agrees (run zero_rng game_stray [SetPosition 7 1]) 4"
proof -
  define g' where "g' = moved game_stray 7 1"
  have vc: "(0xffff::int) = 0xffff \<or> (0xffff::int) < 360" by simp
  have sl: "slotv game_stray 0 1 = 0xffff" using stray_facts(3)[of 0 1] by simp
  have sl0: "slotv game_stray 0 0 = 4" using stray_facts(3)[of 0 0] by simp
  note SL = slotv_moved[OF stray_facts(1) _ _ stray_facts(6) _ stray_facts(7) _ _ _ _ sl vc]
  note PF = planet_fields_moved[OF stray_facts(1) _ _ stray_facts(6) _ stray_facts(7) _ _ _ _ sl vc]
  have ld: "loaded g'" using stray_facts(1) by (simp add: g'_def moved_frame)
  have s00: "slotv g' 0 0 = 0xffff" using SL[of 0 0] sl by (simp add: g'_def)
  have s01: "slotv g' 0 1 = 4" using SL[of 0 1] sl0 by (simp add: g'_def)
  have st: "starb g' 4 = 0" using PF(1)[of 4] stray_facts(4) by (simp add: g'_def)
  have ps: "posb g' 4 = 0" using PF(2)[of 4] stray_facts(5) by (simp add: g'_def)
  have ex0: "existing game_stray 4"
    unfolding existing_iff[OF stray_facts(1)] using sl0
    by (intro conjI exI[of _ 0]) simp_all
  have rd0: "Planet_getstarnum game_stray planet7 = Inr 0"
      "Planet_getposition game_stray planet7 = Inr 0"
    using planet_reads_loaded[OF stray_facts(1), of 7] stray_facts(6,7)
    by (simp_all add: planet7_def planet_ofs_eq)
  have ex: "existing g' 4"
    unfolding existing_iff[OF ld] using s01 by (intro conjI exI[of _ 0] exI[of _ 1]) simp_all
  have rd: "Planet_getstarnum g' planet4 = Inr 0" "Planet_getposition g' planet4 = Inr 0"
    using planet_reads_loaded[OF ld, of 4] st ps by (simp_all add: planet4_def planet_ofs_eq)
  have e00: "slot_entry g' 0 0 = Inr 0xffff" using slot_entry_loaded[OF ld, of 0 0] s00 by simp
  have e01: "slot_entry g' 0 1 = Inr 4" using slot_entry_loaded[OF ld, of 0 1] s01 by simp
  have "\<not> position_agrees g' 4"
    using planet4_init rd e00 by (simp add: position_agrees_def)
  then show ?thesis
    unfolding stray_run g'_def[symmetric]
    using stray_consistent stray_not_existing ex0 planet7_init rd0 stray_setposition ex rd e00 e01
    by simp
qed

section \<open>Loading: the counter \<^verbatim>\<open>maxplanet\<close>\<close>

lemma xrange_stars: "xrange 72 = map int [0..<72]"
  by (simp add: xrange_def xrange3_def)

lemma slot_offsets:
  "xrange3 Star_planet_offset (Star_planet_offset + 10) 2 = [74, 76, 78, 80, 82]"
  by (simp add: xrange3_def Star_planet_offset_def upt_rec)

lemma upt72: "[0..<72] = 0 # 1 # [2..<72]"
  by (simp add: upt_rec)

lemma Planet_init_number: "Planet_init v = Inr p \<Longrightarrow> number p = v"
  by (auto simp add: Planet_init_def split: if_splits)

lemma planets_from_numbers:
  "planets_from g self offs = Inr ps \<Longrightarrow>
     set (map number ps) =
       {v. v \<noteq> 0xffff \<and> (\<exists>i \<in> set offs. short_at_offset g (offset self + i) = Inr v)}"
proof (induction offs arbitrary: ps)
  case Nil
  then show ?case by simp
next
  case (Cons i rest)
  from Cons.prems obtain v where v: "short_at_offset g (offset self + i) = Inr v"
    by (auto split: sum.splits)
  show ?case
  proof (cases "v = 0xffff")
    case True
    then have "planets_from g self rest = Inr ps" using Cons.prems v by simp
    from Cons.IH[OF this] show ?thesis using v True by auto
  next
    case False
    from Cons.prems v False obtain p ps' where
      p: "Planet_init v = Inr p" and r: "planets_from g self rest = Inr ps'" and ps: "ps = p # ps'"
      by (auto split: sum.splits)
    from Cons.IH[OF r] show ?thesis using v False Planet_init_number[OF p] ps by auto
  qed
qed

lemma positions_set: "{0..4::int} = {0, 1, 2, 3, 4}"
  by auto

lemma Star_planets_numbers:
  assumes "Star_planets g self = Inr ps"
  shows "set (map number ps) = referenced_by g self"
proof -
  have "set (map number ps) =
       {v. v \<noteq> 0xffff \<and>
           (\<exists>i \<in> set [74, 76, 78, 80, 82]. short_at_offset g (offset self + i) = Inr v)}"
    using planets_from_numbers[OF assms[unfolded Star_planets_def slot_offsets]] .
  also have "\<dots> = referenced_by g self"
    unfolding referenced_by_def positions_set
    by (simp add: Star_planet_offset_def add.assoc)
  finally show ?thesis .
qed

lemma planet_numbers_from_stars:
  "planet_numbers_from g idxs = Inr ns \<Longrightarrow>
     \<exists>ss. stars_from g idxs = Inr ss \<and> set ns = (\<Union>star \<in> set ss. referenced_by g star)"
proof (induction idxs arbitrary: ns)
  case Nil
  then show ?case by simp
next
  case (Cons i rest)
  from Cons.prems obtain star ex where
    star: "Star_init i = Inr star" and ex: "Star_getexists g star = Inr ex"
    by (auto split: sum.splits)
  show ?case
  proof (cases ex)
    case False
    then show ?thesis using Cons.prems star ex by simp
  next
    case True
    from Cons.prems star ex True obtain ps ns' where
      ps: "Star_planets g star = Inr ps" and r: "planet_numbers_from g rest = Inr ns'"
      and ns: "ns = map number ps @ ns'"
      by (auto split: sum.splits)
    from Cons.IH[OF r] obtain ss where
      ss: "stars_from g rest = Inr ss" "set ns' = (\<Union>star \<in> set ss. referenced_by g star)"
      by blast
    have "stars_from g (i # rest) = Inr (star # ss)" using star ex True ss(1) by simp
    moreover have "set ns = (\<Union>star \<in> set (star # ss). referenced_by g star)"
      using Star_planets_numbers[OF ps] ss(2) ns by simp
    ultimately show ?thesis by blast
  qed
qed

lemma py_max_Inr:
  assumes "py_max ns = Inr m"
  shows "m \<in> set ns \<and> (\<forall>v \<in> set ns. v \<le> m)"
proof (cases ns)
  case Nil
  then show ?thesis using assms by simp
next
  case (Cons x xs)
  have "fold max xs x = Max (set (x # xs))" by (rule Max.set_eq_fold[symmetric])
  then have m: "m = Max (set ns)" using assms Cons by simp
  have "finite (set ns)" "set ns \<noteq> {}" using Cons by simp_all
  then show ?thesis unfolding m using Max_in[of "set ns"] Max_ge[of "set ns"] by blast
qed

lemma scan_data_only:
  assumes "data g' = data g"
  shows "short_at_offset g' = short_at_offset g"
    and "Star_getexists g' = Star_getexists g"
    and "stars_from g' idxs = stars_from g idxs"
    and "referenced_by g' = referenced_by g"
proof -
  show s: "short_at_offset g' = short_at_offset g"
    by (intro ext) (simp only: short_at_offset_def assms)
  show e: "Star_getexists g' = Star_getexists g"
    by (intro ext) (simp only: Star_getexists_def assms)
  show "stars_from g' idxs = stars_from g idxs"
  proof (induction idxs)
    case Nil
    show ?case by simp
  next
    case (Cons i rest)
    show ?case unfolding stars_from.simps e Cons.IH ..
  qed
  show "referenced_by g' = referenced_by g"
    by (intro ext) (simp only: referenced_by_def s)
qed

text \<open>
  Claim C8, as amended. When \<^verbatim>\<open>Game.__init__\<close> succeeds on a buffer, the game holds
  that buffer and \<^verbatim>\<open>maxplanet\<close> is the highest planet index in the slot tables of the
  stars that \<^verbatim>\<open>Game.stars\<close> enumerates: the stars before the first one that does not
  exist.
\<close>

theorem Game_init_maxplanet:
  assumes "Game_init bytes = Inr g"
  shows "data g = bytes \<and>
         (\<exists>stars. Game_stars g = Inr stars \<and>
            (\<exists>star \<in> set stars. maxplanet g \<in> referenced_by g star) \<and>
            (\<forall>star \<in> set stars. \<forall>v \<in> referenced_by g star. v \<le> maxplanet g))"
proof -
  define g0 where "g0 = \<lparr>data = bytes, maxplanet = 0\<rparr>"
  from assms obtain ns m where
    ns: "planet_numbers_from g0 (xrange Star_max_stars) = Inr ns"
    and m: "py_max ns = Inr m" and g: "g = g0\<lparr>maxplanet := m\<rparr>"
    by (auto simp add: Game_init_def g0_def Let_def split: sum.splits)
  have d: "data g = data g0" "data g = bytes" "maxplanet g = m" by (simp_all add: g g0_def)
  from planet_numbers_from_stars[OF ns] obtain ss where
    ss: "stars_from g0 (xrange Star_max_stars) = Inr ss"
        "set ns = (\<Union>star \<in> set ss. referenced_by g0 star)"
    by blast
  have "Game_stars g = Inr ss"
    using ss(1) scan_data_only(3)[OF d(1)] by (simp add: Game_stars_def)
  moreover have "set ns = (\<Union>star \<in> set ss. referenced_by g star)"
    using ss(2) scan_data_only(4)[OF d(1)] by simp
  ultimately show ?thesis using py_max_Inr[OF m] d(2,3) by auto
qed

lemma gap_star0_planets:
  "Star_planets \<lparr>data = bytes_gap, maxplanet = m\<rparr> star0 = Inr [planet3]"
  by (simp add: Star_planets_def slot_offsets short_at_offset_def getitem_def array_index_def
      bytes_gap_def blank_save_def star0_def planet3_def push_bit_eq_mult Planet_init_def
      Planet_max_planets_def Planet_block_offset_def Planet_block_size_def)

lemma gap_exists:
  "Star_getexists \<lparr>data = bytes_gap, maxplanet = m\<rparr> star0 = Inr True"
  "Star_getexists \<lparr>data = bytes_gap, maxplanet = m\<rparr> \<lparr>offset = 97092, number = 1\<rparr> = Inr False"
  "Star_getexists \<lparr>data = bytes_gap, maxplanet = m\<rparr> star2 = Inr True"
  by (simp_all add: Star_getexists_def getitem_def array_index_def bytes_gap_def blank_save_def
      star0_def star2_def)

lemma gap_numbers:
  "planet_numbers_from \<lparr>data = bytes_gap, maxplanet = m\<rparr> (xrange Star_max_stars) = Inr [3]"
  using gap_exists(1,2)[of m] gap_star0_planets[of m] star0_init
  by (simp add: xrange_stars upt72 Star_init_def Star_max_stars_def Star_block_offset_def
      Star_block_size_def star0_def planet3_def)

lemma gap_init: "Game_init bytes_gap = Inr game_gap"
  by (simp add: Game_init_def gap_numbers game_gap_def)

lemma gap_stars: "Game_stars game_gap = Inr [star0]"
  using gap_exists(1,2)[of 3] star0_init
  by (simp add: Game_stars_def game_gap_def xrange_stars upt72 Star_init_def Star_max_stars_def
      Star_block_offset_def Star_block_size_def star0_def)

theorem Game_init_maxplanet_witness:
  "Game_init bytes_gap = Inr game_gap \<and> data game_gap = bytes_gap \<and>
   Game_stars game_gap = Inr [star0] \<and> maxplanet game_gap = 3 \<and>
   maxplanet game_gap \<in> referenced_by game_gap star0"
  using Game_init_maxplanet[OF gap_init] gap_init gap_stars
  by (simp add: game_gap_def)

text \<open>
  The claim as stated takes the maximum over the slot tables of all stars of the save. In
  the save \<open>bytes_gap\<close> star 1 does not exist, so the scan stops there; star 2 exists
  and its slot 0 refers to planet 7, but \<^verbatim>\<open>maxplanet\<close> is 3.
\<close>

theorem Game_init_maxplanet_counterexample:
  "Game_init bytes_gap = Inr game_gap \<and> maxplanet game_gap = 3 \<and>
   Star_init 2 = Inr star2 \<and> Star_getexists game_gap star2 = Inr True \<and>
   planet_at game_gap star2 0 = Inr (Some planet7) \<and> number planet7 = 7 \<and>
   maxplanet game_gap < number planet7"
proof -
  have "planet_at game_gap star2 0 = Inr (Some planet7)"
    by (simp add: planet_at_def short_at_offset_def getitem_def array_index_def game_gap_def
      bytes_gap_def blank_save_def star2_def planet7_def push_bit_eq_mult Planet_init_def
      Planet_max_planets_def Planet_block_offset_def Planet_block_size_def Star_planet_offset_def)
  moreover have "Star_init 2 = Inr star2"
    by (simp add: Star_init_def star2_def Star_max_stars_def Star_block_offset_def
        Star_block_size_def)
  ultimately show ?thesis using gap_init gap_exists(3)[of 3]
    by (simp add: game_gap_def planet7_def)
qed

section \<open>A failing \<^verbatim>\<open>make_planet\<close> and the counter\<close>

lemma full_init: "Game_init bytes_full = Inr game_full"
proof -
  have ex: "Star_getexists \<lparr>data = bytes_full, maxplanet = 0\<rparr> star0 = Inr True"
    "Star_getexists \<lparr>data = bytes_full, maxplanet = 0\<rparr> \<lparr>offset = 97092, number = 1\<rparr> = Inr False"
    by (simp_all add: Star_getexists_def getitem_def array_index_def bytes_full_def blank_save_def
        star0_def)
  have pl: "Star_planets \<lparr>data = bytes_full, maxplanet = 0\<rparr> star0 = Inr [planet359]"
    by (simp add: Star_planets_def slot_offsets short_at_offset_def getitem_def array_index_def
      bytes_full_def blank_save_def star0_def planet359_def push_bit_eq_mult Planet_init_def
      Planet_max_planets_def Planet_block_offset_def Planet_block_size_def)
  have "planet_numbers_from \<lparr>data = bytes_full, maxplanet = 0\<rparr> (xrange Star_max_stars) = Inr [359]"
    using ex pl star0_init
    by (simp add: xrange_stars upt72 Star_init_def Star_max_stars_def Star_block_offset_def
      Star_block_size_def star0_def planet359_def)
  then show ?thesis by (simp add: Game_init_def game_full_def)
qed

text \<open>
  Claim C5 says that a failing \<^verbatim>\<open>make_planet\<close> leaves the counter unchanged. The save
  \<open>bytes_full\<close> loads with \<^verbatim>\<open>maxplanet\<close> at 359, the last planet index, and slot 1 of
  star 0 is empty. The call \<^verbatim>\<open>make_planet(1, 3)\<close> on star 0 passes both explicit
  checks, raises \<^verbatim>\<open>ValueError\<close> from \<^verbatim>\<open>Planet.__init__\<close>, and the counter is 360
  afterwards.
\<close>

theorem make_planet_full_table_moves_counter:
  "Game_init bytes_full = Inr game_full \<and> maxplanet game_full = 359 \<and>
   Star_init 0 = Inr star0 \<and>
   make_planet zero_rng game_full star0 1 3 = (Inl ValueError, game_full\<lparr>maxplanet := 360\<rparr>)"
proof -
  have "short_at_offset game_full (offset star0 + Star_planet_offset + 2 * 1) = Inr 0xffff"
    by (simp add: short_at_offset_def getitem_def array_index_def game_full_def bytes_full_def
        blank_save_def star0_def Star_planet_offset_def push_bit_eq_mult)
  from make_planet_eq[OF star0_init _ _ this _ _ refl refl refl, of 3 zero_rng]
  show ?thesis using star0_init full_init by (simp add: game_full_def)
qed

end
